theory Spec2Isabelle
  imports Complex_Main "HOL-Library.Word"
begin

chapter \<open>The simulation engine of Engine.cpp\<close>

section \<open>The double-buffer handoff: Wait, Step, Go and the worker loop\<close>

text \<open>
  The two threads share \<open>calcTickTock\<close>, \<open>drawTickTock\<close> and \<open>terminate\<close>, always
  read and written under \<open>swapMutex\<close>. Each critical section is one atomic action of an
  interleaving model; the program counters say where each thread stands between its
  critical sections. \<open>condition.wait\<close> inside a \<open>while\<close> loop is a blocked action: the
  loop is left only by a check, under the mutex, that finds its condition false.

  The last three fields are observers. They count calls and are read by no action.
\<close>

datatype worker_pc =
    WorkerWaiting       \<comment> \<open>in the \<open>while(calcTickTock == drawTickTock && !terminate)\<close> loop\<close>
  | WorkerCalculating   \<comment> \<open>inside \<open>CalculateStep()\<close>, writing \<open>draw[calcTickTock]\<close>\<close>
  | WorkerPublishing    \<comment> \<open>\<open>CalculateStep()\<close> has returned, \<open>calcTickTock = drawTickTock\<close> not yet run\<close>
  | WorkerExited        \<comment> \<open>left the loop through \<open>if(terminate) break\<close>\<close>

datatype foreground_pc =
    BeforeWait | BeforeStep | BeforeGo
  | Destroyed           \<comment> \<open>\<open>~Engine()\<close> has set \<open>terminate\<close>\<close>

record Sync =
  calcTickTock :: bool
  drawTickTock :: bool
  terminate :: bool
  step :: int
  workerAt :: worker_pc
  foregroundAt :: foreground_pc
  calcsDone :: nat       \<comment> \<open>observer: returns of \<open>CalculateStep()\<close> so far\<close>
  calcsSinceGo :: nat    \<comment> \<open>observer: returns of \<open>CalculateStep()\<close> since the last \<open>Go()\<close>\<close>
  goCalls :: nat         \<comment> \<open>observer: calls of \<open>Go()\<close> so far\<close>

datatype action =
    WaitReturns | StepCall | GoCall | Destructor
  | WorkerWakes | WorkerExits | CalculateStepReturns | WorkerPublishes

text \<open>
  The foreground follows the protocol of the main loop: \<open>Wait()\<close>, then \<open>Step()\<close>, then
  \<open>Go()\<close>. The destructor may run wherever the foreground is not inside a call.
\<close>

fun fire :: "action \<Rightarrow> Sync \<Rightarrow> Sync option" where
  "fire WaitReturns s =
     (if foregroundAt s = BeforeWait \<and> \<not> (calcTickTock s \<noteq> drawTickTock s)
      then Some (s\<lparr>foregroundAt := BeforeStep\<rparr>) else None)"
| "fire StepCall s =
     (if foregroundAt s = BeforeStep then Some (s\<lparr>foregroundAt := BeforeGo\<rparr>) else None)"
| "fire GoCall s =
     (if foregroundAt s = BeforeGo
      then Some (s\<lparr>step := step s + 1, drawTickTock := \<not> drawTickTock s,
                    foregroundAt := BeforeWait, calcsSinceGo := 0, goCalls := Suc (goCalls s)\<rparr>)
      else None)"
| "fire Destructor s =
     (if foregroundAt s \<noteq> Destroyed
      then Some (s\<lparr>terminate := True, foregroundAt := Destroyed\<rparr>) else None)"
| "fire WorkerWakes s =
     (if workerAt s = WorkerWaiting
         \<and> \<not> (calcTickTock s = drawTickTock s \<and> \<not> terminate s) \<and> \<not> terminate s
      then Some (s\<lparr>workerAt := WorkerCalculating\<rparr>) else None)"
| "fire WorkerExits s =
     (if workerAt s = WorkerWaiting
         \<and> \<not> (calcTickTock s = drawTickTock s \<and> \<not> terminate s) \<and> terminate s
      then Some (s\<lparr>workerAt := WorkerExited\<rparr>) else None)"
| "fire CalculateStepReturns s =
     (if workerAt s = WorkerCalculating
      then Some (s\<lparr>workerAt := WorkerPublishing, calcsDone := Suc (calcsDone s),
                    calcsSinceGo := Suc (calcsSinceGo s)\<rparr>)
      else None)"
| "fire WorkerPublishes s =
     (if workerAt s = WorkerPublishing
      then Some (s\<lparr>calcTickTock := drawTickTock s, workerAt := WorkerWaiting\<rparr>) else None)"

fun run :: "action list \<Rightarrow> Sync \<Rightarrow> Sync option" where
  "run [] s = Some s"
| "run (a # as) s = (case fire a s of None \<Rightarrow> None | Some s' \<Rightarrow> run as s')"

text \<open>
  Modelled from the spec: the member initialisers of Engine.h are not under src/. The
  worker waits "until its target slot differs from the current draw slot", and the
  constructor fills \<open>draw[calcTickTock]\<close> without the mutex right after it starts the
  worker, so the two indices start equal; \<open>b\<close> is their common value.
\<close>

definition initial :: "bool \<Rightarrow> Sync" where
  "initial b = \<lparr>calcTickTock = b, drawTickTock = b, terminate = False, step = 0,
     workerAt = WorkerWaiting, foregroundAt = BeforeWait,
     calcsDone = 0, calcsSinceGo = 0, goCalls = 0\<rparr>"

text \<open>The slot the worker is writing, and the slot \<open>Draw()\<close> reads.\<close>

definition calculatingSlot :: "Sync \<Rightarrow> bool option" where
  "calculatingSlot s = (if workerAt s = WorkerCalculating then Some (calcTickTock s) else None)"

definition drawSlot :: "Sync \<Rightarrow> bool" where
  "drawSlot s = drawTickTock s"

definition handoff :: "Sync \<Rightarrow> bool" where
  "handoff s \<longleftrightarrow>
     (terminate s \<longleftrightarrow> foregroundAt s = Destroyed) \<and>
     (workerAt s \<noteq> WorkerExited \<or> terminate s) \<and>
     (if calcTickTock s = drawTickTock s
      then (workerAt s = WorkerWaiting \<or> workerAt s = WorkerExited)
           \<and> calcsDone s = goCalls s
           \<and> calcsSinceGo s = (if goCalls s = 0 then 0 else 1)
      else (foregroundAt s = BeforeWait \<or> foregroundAt s = Destroyed)
           \<and> (if workerAt s = WorkerPublishing
                then calcsDone s = goCalls s \<and> calcsSinceGo s = 1 \<and> 0 < goCalls s
                else goCalls s = Suc (calcsDone s) \<and> calcsSinceGo s = 0))"

section \<open>Entities, world data and collaborators\<close>

text \<open>
  Objects that the engine holds by pointer are named by their address. A ship is read
  and written through the store \<open>shipAt\<close>; a \<open>weak_ptr\<close> to a ship is an optional
  address that locks only while the object has not been freed.
\<close>

type_synonym ship_id = nat
type_synonym gov_id = nat
type_synonym system_id = nat
type_synonym Point = "real \<times> real"

datatype fault = NullDereference

record Ship =
  sGetGovernment :: gov_id
  sGetSystem :: "system_id option"
  sZoom :: real
  sCloaking :: real
  sPosition :: Point
  sVelocity :: Point
  sShouldBeRemoved :: bool
  sIsDisabled :: bool
  sCannotAct :: bool
  sCargoFree :: int
  sIsYours :: bool
  sGetParent :: "ship_id option"
  sName :: string
  sNoun :: string
  sModelName :: string
  sCrew :: int
  sIsMute :: bool
  sIsHeroic :: bool
  sShields :: real
  sHull :: real
  sCost :: int
  sTargetShip :: "ship_id option"   \<comment> \<open>the weak reference behind \<open>GetTargetShip()\<close>\<close>
  sIsTargetable :: bool
  sHasSprite :: bool
  sIsHyperspacing :: bool
  sIsUsingJumpDrive :: bool
  sHail :: string

type_synonym store = "ship_id \<Rightarrow> Ship"

record Weapon =
  IsPhasing :: bool
  TriggerRadius :: real
  BlastRadius :: real
  IsSafe :: bool

record Projectile =
  pPosition :: Point
  pVelocity :: Point
  pGetGovernment :: "gov_id option"   \<comment> \<open>absent for a ship explosion\<close>
  pGetWeapon :: Weapon
  pTarget :: "ship_id option"         \<comment> \<open>\<open>Target()\<close>, the cached raw pointer\<close>
  pTargetShip :: "ship_id option"     \<comment> \<open>the weak reference behind \<open>TargetPtr()\<close>\<close>
  pMissileStrength :: int
  pShouldBeRemoved :: bool

record Outfit =
  oName :: string
  oPluralName :: string
  oInstallable :: real                \<comment> \<open>\<open>Get("installable")\<close>\<close>

record Flotsam =
  fPosition :: Point
  fSource :: "ship_id option"
  fUnitSize :: real
  fOutfitType :: "Outfit option"
  fCommodityType :: string
  fShouldBeRemoved :: bool

record Visual =
  vTag :: nat
  vShouldBeRemoved :: bool

record Government =
  gGetName :: string
  gIsPlayer :: bool
  gIsEnemyOfPlayer :: bool            \<comment> \<open>\<open>IsEnemy()\<close> with no argument\<close>
  gIsEnemy :: "gov_id \<Rightarrow> bool"       \<comment> \<open>\<open>IsEnemy(other)\<close>\<close>
  gLanguage :: string

record Fleet =
  fleetGovernment :: "gov_id option"

record FleetProbability =
  fpGet :: Fleet
  fpPeriod :: int

record Person =
  personFrequency :: "system_id \<Rightarrow> int"
  personShip :: ship_id
  personGovernment :: gov_id
  personIsMute :: bool
  personIsHeroic :: bool
  personHail :: string

datatype Actor = ActorShip "ship_id option" | ActorGovernment "gov_id option"

record ShipEvent =
  evActor :: Actor
  evTarget :: ship_id
  evType :: int

datatype Drawn =
    DrawFlotsam Flotsam | DrawShip ship_id | DrawProjectile Projectile | DrawVisual Visual

text \<open>
  Observer: the calls the engine makes to its collaborators and to its own passes, in
  the order it makes them. No definition reads it.
\<close>

datatype Call =
    ShipMoveCall ship_id | FlotsamMoveCall Flotsam | ProjectileMoveCall Projectile
  | VisualMoveCall Visual
  | FleetEnterCall nat
  | DoCollisionsCall Projectile | DoCollectionCall Flotsam
  | TriggerCircleCall | LineCall | AsteroidsCollideCall | MaskCollideCall ship_id
  | BlastCircleCall bool
  | ExplodeCall real | TakeDamageCall ship_id bool | FireAntiMissileCall ship_id | KillCall
  | TransferToCall ship_id | HarvestCall Outfit | PlayCall string

record Engine =
  playerSystem :: "system_id option"       \<comment> \<open>\<open>player.GetSystem()\<close>\<close>
  playerFlagship :: "ship_id option"       \<comment> \<open>\<open>player.Flagship()\<close>\<close>
  shipAt :: store
  expired :: "ship_id \<Rightarrow> bool"            \<comment> \<open>the Ship object has been freed\<close>
  ships :: "ship_id list"
  newShips :: "ship_id list"
  projectiles :: "Projectile list"
  newProjectiles :: "Projectile list"
  flotsam :: "Flotsam list"
  newFlotsam :: "Flotsam list"
  visuals :: "Visual list"
  newVisuals :: "Visual list"
  hasAntiMissile :: "ship_id list"
  shipCollisions :: "ship_id list"
  cloakedCollisions :: "ship_id list"
  grudge :: "gov_id \<rightharpoonup> ship_id option"
  grudgeTime :: int
  eventQueue :: "ShipEvent list"
  messages :: "string list"                \<comment> \<open>\<open>Messages::Add\<close>, oldest first\<close>
  drawList :: "Drawn list"                 \<comment> \<open>the entities added to \<open>draw[calcTickTock]\<close>\<close>
  draws :: nat                             \<comment> \<open>calls of \<open>Random\<close> made by the engine so far\<close>
  trace :: "Call list"

text \<open>
  The collaborators: classes of the repository whose code is not in Engine.cpp (Ship,
  Projectile, Flotsam, AI, Fleet, CollisionSet, AsteroidField, Random, Format, PlayerInfo,
  GameData). Each is a parameter; the engine's code is modelled over any choice of them.
  \<open>RandomInt ext k n\<close> is what the \<open>k\<close>-th draw returns when it is \<open>Random::Int(n)\<close>.
\<close>

record Collab =
  government :: "gov_id \<Rightarrow> Government"
  DESTROY :: int
  BOARD :: int
  ASSIST :: int
  RandomInt :: "nat \<Rightarrow> int \<Rightarrow> nat"
  RandomReal :: "nat \<Rightarrow> real"
  Fleets :: "system_id \<Rightarrow> FleetProbability list"      \<comment> \<open>\<open>System::Fleets()\<close>\<close>
  LinksEmpty :: "system_id \<Rightarrow> bool"                   \<comment> \<open>\<open>System::Links().empty()\<close>\<close>
  Persons :: "(string \<times> Person) list"                  \<comment> \<open>\<open>GameData::Persons()\<close>, in its order\<close>
  EnemyStrength :: "gov_id \<Rightarrow> 64 word"                 \<comment> \<open>\<open>AI::EnemyStrength\<close>, an \<open>int64_t\<close>\<close>
  AllyStrength :: "gov_id \<Rightarrow> 64 word"
  FleetEnter :: "Engine \<Rightarrow> nat \<Rightarrow> store \<times> ship_id list"
  ShipRecharge :: "Ship \<Rightarrow> Ship"
  FleetEnterShip :: "Engine \<Rightarrow> Ship \<Rightarrow> Ship"            \<comment> \<open>the static \<open>Fleet::Enter(system, ship)\<close>\<close>
  AIStep :: "Engine \<Rightarrow> store"
  DeployDefense :: "Engine \<Rightarrow> store \<times> ship_id list"
  ShipMove :: "store \<Rightarrow> ship_id \<Rightarrow> store \<times> Visual list \<times> Flotsam list"
  ShipBoard :: "store \<Rightarrow> ship_id \<Rightarrow> bool \<Rightarrow> store \<times> ship_id option"
  ShipLaunch :: "store \<Rightarrow> ship_id \<Rightarrow> store \<times> ship_id list"
  ShipFire :: "store \<Rightarrow> ship_id \<Rightarrow> store \<times> Projectile list \<times> Visual list \<times> bool"
  ShipScan :: "store \<Rightarrow> ship_id \<Rightarrow> store \<times> int"
  IsEnteringHyperspace :: "Ship \<Rightarrow> bool"
  EnterSystemEffects :: "Engine \<Rightarrow> store \<times> ship_id list \<times> string list"
  AsteroidsStep :: "Engine \<Rightarrow> Visual list \<times> Flotsam list"
  FlotsamMove :: "Flotsam \<Rightarrow> Flotsam \<times> Visual list"
  ProjectileMove :: "Projectile \<Rightarrow> Projectile \<times> Visual list \<times> Projectile list"
  VisualMove :: "Visual \<Rightarrow> Visual"
  GetHail :: "Ship \<Rightarrow> string"
  PlayerIsDead :: bool
  MouseClickEffects :: "Engine \<Rightarrow> store \<times> string list"
  Intersects :: "ship_id \<Rightarrow> Point \<Rightarrow> real \<Rightarrow> bool"
  Line :: "ship_id list \<Rightarrow> Projectile \<Rightarrow> real \<Rightarrow> ship_id option \<times> real"
  MaskCollide :: "Ship \<Rightarrow> Point \<Rightarrow> Point \<Rightarrow> real"
  AsteroidsCollide :: "Projectile \<Rightarrow> real \<Rightarrow> Point \<Rightarrow> real \<times> Point"
  ProjectileExplode :: "Projectile \<Rightarrow> real \<Rightarrow> Point \<Rightarrow> Projectile \<times> Visual list"
  ProjectileKill :: "Projectile \<Rightarrow> Projectile"
  TakeDamage :: "Ship \<Rightarrow> Projectile \<Rightarrow> bool \<Rightarrow> int \<times> Ship"
  FireAntiMissile :: "Ship \<Rightarrow> Projectile \<Rightarrow> bool \<times> Ship \<times> Visual list"
  TransferTo :: "Flotsam \<Rightarrow> Ship \<Rightarrow> int \<times> Flotsam \<times> Ship"
  FormatNumber :: "real \<Rightarrow> string"
  FormatLowerCase :: "string \<Rightarrow> string"
  GetCondition :: "string \<Rightarrow> int"
  LastName :: string

definition lock :: "Engine \<Rightarrow> ship_id option \<Rightarrow> ship_id option" where
  "lock st w = (case w of None \<Rightarrow> None | Some i \<Rightarrow> if expired st i then None else Some i)"

definition log :: "Call \<Rightarrow> Engine \<Rightarrow> Engine" where
  "log c st = st\<lparr>trace := trace st @ [c]\<rparr>"

text \<open>
  Modelled from the spec: CollisionSet is not under src/. Its "Circle query: all bodies
  whose hit-circle intersects a given circle" is the bodies of the set that
  \<open>Intersects\<close> accepts, here in the order they were added.
\<close>

definition Circle :: "Collab \<Rightarrow> ship_id list \<Rightarrow> Point \<Rightarrow> real \<Rightarrow> ship_id list" where
  "Circle ext bodies center radius = filter (\<lambda>b. Intersects ext b center radius) bodies"

section \<open>The entity store: pruning and the collision sets\<close>

text \<open>\<open>Prune(list<shared_ptr<Type>> &)\<close>: erase in place, one pass.\<close>

fun PruneList :: "('a \<Rightarrow> bool) \<Rightarrow> 'a list \<Rightarrow> 'a list" where
  "PruneList remove [] = []"
| "PruneList remove (x # xs) =
     (if remove x then PruneList remove xs else x # PruneList remove xs)"

text \<open>
  \<open>Prune(vector<Type> &)\<close>: skip the leading objects that stay, move every later object
  that stays down to the output position, erase the tail.
\<close>

definition PruneVector :: "('a \<Rightarrow> bool) \<Rightarrow> 'a list \<Rightarrow> 'a list" where
  "PruneVector remove objects =
     takeWhile (\<lambda>x. \<not> remove x) objects
       @ filter (\<lambda>x. \<not> remove x) (dropWhile (\<lambda>x. \<not> remove x) objects)"

text \<open>\<open>Append(objects, added)\<close> moves \<open>added\<close> to the end of \<open>objects\<close> and clears it.\<close>

definition Append :: "'a list \<Rightarrow> 'a list \<Rightarrow> 'a list \<times> 'a list" where
  "Append objects added = (objects @ added, [])"

definition addToCollisionSets :: "Engine \<Rightarrow> ship_id \<Rightarrow> Engine" where
  "addToCollisionSets st it =
     (if sGetSystem (shipAt st it) = playerSystem st \<and> sZoom (shipAt st it) = 1
      then (if sCloaking (shipAt st it) < 1
            then st\<lparr>shipCollisions := shipCollisions st @ [it]\<rparr>
            else st\<lparr>cloakedCollisions := cloakedCollisions st @ [it]\<rparr>)
      else st)"

definition FillCollisionSets :: "Engine \<Rightarrow> Engine" where
  "FillCollisionSets st =
     foldl addToCollisionSets (st\<lparr>shipCollisions := [], cloakedCollisions := []\<rparr>) (ships st)"

section \<open>The spawn scheduler\<close>

text \<open>
  The test "allies in-system already far outnumber its enemies" of \<open>SpawnFleets\<close>. The
  strengths are \<open>int64_t\<close>: \<open>2 * enemyStrength\<close> is computed in 64 bits, and the comparison
  is signed.
\<close>

definition throttled :: "Collab \<Rightarrow> gov_id \<Rightarrow> bool" where
  "throttled ext gov =
     (let enemyStrength = EnemyStrength ext gov
      in enemyStrength \<noteq> 0 \<and> sint (2 * enemyStrength) < sint (AllyStrength ext gov))"

text \<open>One round of the loop of \<open>SpawnFleets\<close>, for the \<open>i\<close>-th fleet of the system.\<close>

definition SpawnFleet :: "Collab \<Rightarrow> Engine \<Rightarrow> nat \<times> FleetProbability \<Rightarrow> Engine" where
  "SpawnFleet ext st0 ifleet =
     (let r = RandomInt ext (draws st0) (fpPeriod (snd ifleet));
          st = st0\<lparr>draws := Suc (draws st0)\<rparr>
      in if r \<noteq> 0 then st
         else (case fleetGovernment (fpGet (snd ifleet)) of
                 None \<Rightarrow> st
               | Some gov \<Rightarrow>
                   if throttled ext gov then st
                   else st\<lparr>shipAt := fst (FleetEnter ext st (fst ifleet)),
                           newShips := newShips st @ snd (FleetEnter ext st (fst ifleet)),
                           trace := trace st @ [FleetEnterCall (fst ifleet)]\<rparr>))"

definition SpawnFleets :: "Collab \<Rightarrow> Engine \<Rightarrow> fault + Engine" where
  "SpawnFleets ext st =
     (case playerSystem st of
        None \<Rightarrow> Inl NullDereference
      | Some system \<Rightarrow> Inr (foldl (SpawnFleet ext) st (enumerate 0 (Fleets ext system))))"


text \<open>
  The second loop of \<open>SpawnPersons\<close>: \<open>sumLeft\<close> (the source's \<open>sum\<close>) holds the draw, each
  person takes its frequency off it, and the first person to bring it below zero enters.
\<close>

fun choosePerson :: "system_id \<Rightarrow> int \<Rightarrow> (string \<times> Person) list \<Rightarrow> (string \<times> Person) option" where
  "choosePerson system sumLeft [] = None"
| "choosePerson system sumLeft (it # rest) =
     (if sumLeft - personFrequency (snd it) system < 0 then Some it
      else choosePerson system (sumLeft - personFrequency (snd it) system) rest)"

definition totalFrequency :: "system_id \<Rightarrow> (string \<times> Person) list \<Rightarrow> int" where
  "totalFrequency system persons =
     foldl (\<lambda>sumLeft it. sumLeft + personFrequency (snd it) system) 0 persons"

definition SpawnPersons :: "Collab \<Rightarrow> Engine \<Rightarrow> fault + Engine" where
  "SpawnPersons ext st0 =
     (let gate = RandomInt ext (draws st0) 36000;
          st1 = st0\<lparr>draws := Suc (draws st0)\<rparr>
      in if gate \<noteq> 0 then Inr st1
         else (case playerSystem st1 of
                 None \<Rightarrow> Inl NullDereference
               | Some system \<Rightarrow>
                   if LinksEmpty ext system then Inr st1
                   else (let sumLeft = totalFrequency system (Persons ext)
                         in if sumLeft = 0 then Inr st1
                            else (let r = int (RandomInt ext (draws st1) (sumLeft + 1000));
                                      st2 = st1\<lparr>draws := Suc (draws st1)\<rparr>
                                  in case choosePerson system r (Persons ext) of
                                       None \<Rightarrow> Inr st2
                                     | Some it \<Rightarrow>
                                         (let ship = ShipRecharge ext (shipAt st2 (personShip (snd it)));
                                              ship = ship\<lparr>sName := fst it,
                                                          sGetGovernment := personGovernment (snd it),
                                                          sIsMute := personIsMute (snd it),
                                                          sIsHeroic := personIsHeroic (snd it),
                                                          sHail := personHail (snd it)\<rparr>;
                                              ship = FleetEnterShip ext st2 ship
                                          in Inr (st2\<lparr>shipAt := (shipAt st2)(personShip (snd it) := ship),
                                                       newShips := newShips st2 @ [personShip (snd it)]\<rparr>))))))"



text \<open>The double quote character of the messages.\<close>

definition quote :: string where
  "quote = [CHR 0x22]"

text \<open>\<open>SendHails\<close>. A ship's government is never absent in this model.\<close>

definition SendHails :: "Collab \<Rightarrow> Engine \<Rightarrow> fault + Engine" where
  "SendHails ext st0 =
     (let gate = RandomInt ext (draws st0) 600;
          st1 = st0\<lparr>draws := Suc (draws st0)\<rparr>
      in if gate \<noteq> 0 \<or> PlayerIsDead ext \<or> ships st1 = [] then Inr st1
         else (let i = RandomInt ext (draws st1) (int (length (ships st1)));
                   st2 = st1\<lparr>draws := Suc (draws st1)\<rparr>
               in if length (ships st2) \<le> i then Inl NullDereference
                  else (let source = shipAt st2 (ships st2 ! i);
                            gov = government ext (sGetGovernment source)
                        in if gIsPlayer gov then Inr st2
                           else if sGetSystem source \<noteq> playerSystem st2 then Inr st2
                           else if sIsDisabled source \<or> sCrew source = 0 \<or> 1 \<le> sCloaking source
                           then Inr st2
                           else (let message = GetHail ext source
                                 in if message = [] then Inr st2
                                    else (let tag =
                                            (if sName source \<noteq> []
                                             then gGetName gov @ '' '' @ sNoun source @ '' '' @ quote @ sName source @ quote @ '': ''
                                             else sModelName source @ '' ('' @ gGetName gov @ ''): '')
                                          in Inr (st2\<lparr>messages := messages st2 @ [tag @ message]\<rparr>))))))"

section \<open>Diplomacy: the grudge table\<close>

text \<open>
  \<open>DoGrudge(target, attacker)\<close>, in the four parts defined after its helpers. The
  attacker is dereferenced at once, unchecked. \<open>grudge[key]\<close> on a \<open>std::map\<close> inserts an empty weak reference when the key is
  absent. The strengths are doubles, taken as reals; when \<open>targetStrength\<close> is 0 the
  quotient is +infinity (\<open>attackerStrength\<close> is positive there) and the comparison with
  it is false.
\<close>

definition stillThere :: "Engine \<Rightarrow> ship_id \<Rightarrow> bool" where
  "stillThere st previous \<longleftrightarrow>
     sGetSystem (shipAt st previous) = playerSystem st \<and> \<not> sIsDisabled (shipAt st previous)"

definition strength :: "Ship \<Rightarrow> real" where
  "strength ship = (sShields ship + sHull ship) * real_of_int (sCost ship)"

definition attackersOf :: "Engine \<Rightarrow> ship_id \<Rightarrow> gov_id \<Rightarrow> ship_id list" where
  "attackersOf st target attacker =
     filter (\<lambda>ship. sGetGovernment (shipAt st ship) = attacker
                  \<and> lock st (sTargetShip (shipAt st ship)) = Some target) (ships st)"

definition requestMessage :: "Collab \<Rightarrow> Ship \<Rightarrow> gov_id \<Rightarrow> nat \<Rightarrow> string" where
  "requestMessage ext target attacker attackerCount =
     gGetName (government ext (sGetGovernment target)) @ '' ship '' @ quote @ sName target
       @ quote @ '': ''
       @ (if sIsHeroic target
          then ''Please assist us in destroying ''
               @ (if attackerCount = 1 then ''this '' else ''these '')
               @ gGetName (government ext attacker)
               @ (if attackerCount = 1 then '' ship.'' else '' ships.'')
          else ''We are under attack by ''
               @ (if attackerCount = 1 then ''a '' else [])
               @ gGetName (government ext attacker)
               @ (if attackerCount = 1 then '' ship'' else '' ships'')
               @ ''. Please assist us!'')"

definition thanksMessage :: "Collab \<Rightarrow> Ship \<Rightarrow> string" where
  "thanksMessage ext previous =
     gGetName (government ext (sGetGovernment previous)) @ '' '' @ sNoun previous @ '' ''
       @ quote @ sName previous @ quote @ '': Thank you for your assistance, Captain ''
       @ LastName ext @ ''!''"

text \<open>The branch \<open>if(attacker->IsPlayer())\<close>: the player damaged \<open>target\<close>.\<close>

definition thankPlayer :: "Collab \<Rightarrow> Engine \<Rightarrow> ship_id \<Rightarrow> Engine" where
  "thankPlayer ext st target =
     (let tg = sGetGovernment (shipAt st target);
          weak = (case grudge st tg of None \<Rightarrow> None | Some w \<Rightarrow> w);
          st1 = st\<lparr>grudge := (grudge st)(tg \<mapsto> weak)\<rparr>
      in case lock st1 weak of
           None \<Rightarrow> st1
         | Some previous \<Rightarrow>
             if stillThere st1 previous
             then st1\<lparr>grudge := (grudge st1)(tg \<mapsto> None),
                      messages := messages st1 @ [thanksMessage ext (shipAt st1 previous)]\<rparr>
             else st1)"

text \<open>
  \<open>if(grudge.count(attacker))\<close>: an entry for the attacker ends the call when its weak
  reference does not lock, or locks a ship that is still there.
\<close>

definition entryBlocks :: "Engine \<Rightarrow> gov_id \<Rightarrow> bool" where
  "entryBlocks st attacker =
     (case grudge st attacker of
        None \<Rightarrow> False
      | Some weak \<Rightarrow>
          (case lock st weak of
             None \<Rightarrow> True
           | Some previous \<Rightarrow> stillThere st previous))"

text \<open>The five tests "do not ask the player's help if ...", each a \<open>return\<close>.\<close>

definition willNotAsk :: "Collab \<Rightarrow> Engine \<Rightarrow> ship_id \<Rightarrow> gov_id \<Rightarrow> bool" where
  "willNotAsk ext st target attacker =
     (if gIsPlayer (government ext (sGetGovernment (shipAt st target))) then True
      else if \<not> gIsEnemyOfPlayer (government ext attacker) then True
      else if gIsEnemyOfPlayer (government ext (sGetGovernment (shipAt st target))) then True
      else if sIsMute (shipAt st target) then True
      else gLanguage (government ext (sGetGovernment (shipAt st target))) \<noteq> []
           \<and> GetCondition ext (''language: ''
                 @ gLanguage (government ext (sGetGovernment (shipAt st target)))) = 0)"

text \<open>The comparison of strengths, the draw, and the request.\<close>

definition askForHelp :: "Collab \<Rightarrow> Engine \<Rightarrow> ship_id \<Rightarrow> gov_id \<Rightarrow> Engine" where
  "askForHelp ext st target attacker =
     (let targetStrength = strength (shipAt st target);
          attackers = attackersOf st target attacker;
          attackerCount = length attackers;
          attackerStrength = sum_list (map (\<lambda>ship. strength (shipAt st ship)) attackers)
      in if attackerStrength \<le> targetStrength then st
         else (let r = RandomReal ext (draws st);
                   st1 = st\<lparr>draws := Suc (draws st)\<rparr>
               in if targetStrength \<noteq> 0 \<and> r * 10 > attackerStrength / targetStrength - 1
                  then st1
                  else st1\<lparr>grudge := (grudge st1)(attacker \<mapsto> Some target),
                           grudgeTime := 120,
                           messages := messages st1
                              @ [requestMessage ext (shipAt st1 target) attacker
                                   attackerCount]\<rparr>))"

definition DoGrudge :: "Collab \<Rightarrow> Engine \<Rightarrow> ship_id \<Rightarrow> gov_id option \<Rightarrow> fault + Engine" where
  "DoGrudge ext st target attacker =
     (case attacker of
        None \<Rightarrow> Inl NullDereference
      | Some a \<Rightarrow>
          if gIsPlayer (government ext a) then Inr (thankPlayer ext st target)
          else if grudgeTime st \<noteq> 0 then Inr st
          else if entryBlocks st a then Inr st
          else if willNotAsk ext st target a then Inr st
          else Inr (askForHelp ext st target a))"

text \<open>The countdown of \<open>CalculateStep\<close>: \<open>if(grudgeTime) --grudgeTime;\<close>\<close>

definition tickGrudgeTime :: "Engine \<Rightarrow> Engine" where
  "tickGrudgeTime st = (if grudgeTime st \<noteq> 0 then st\<lparr>grudgeTime := grudgeTime st - 1\<rparr> else st)"

section \<open>Collision and damage\<close>

definition subPoint :: "Point \<Rightarrow> Point \<Rightarrow> Point" where
  "subPoint a b = (fst a - fst b, snd a - snd b)"

definition addPoint :: "Point \<Rightarrow> Point \<Rightarrow> Point" where
  "addPoint a b = (fst a + fst b, snd a + snd b)"

definition scalePoint :: "real \<Rightarrow> Point \<Rightarrow> Point" where
  "scalePoint c a = (c * fst a, c * snd a)"

text \<open>
  The branch for a phasing projectile with a target: the result is \<open>closestHit\<close> and
  \<open>hit\<close>; \<open>hitVelocity\<close> stays \<open>Point()\<close>.
\<close>

definition phasingHit :: "Collab \<Rightarrow> Engine \<Rightarrow> Projectile \<Rightarrow> Engine \<times> real \<times> ship_id option" where
  "phasingHit ext st p =
     (case lock st (pTargetShip p) of
        None \<Rightarrow> (st, 1, None)
      | Some target \<Rightarrow>
          if sGetSystem (shipAt st target) = playerSystem st
             \<and> sZoom (shipAt st target) = 1 \<and> sCloaking (shipAt st target) < 1
          then (let offset = subPoint (pPosition p) (sPosition (shipAt st target));
                    range = MaskCollide ext (shipAt st target) offset (pVelocity p);
                    st1 = log (MaskCollideCall target) st
                in if range < 1 then (st1, range, Some target) else (st1, 1, None))
          else (st, 1, None))"

text \<open>The branch for every other projectile that has a government \<open>gov\<close>.\<close>

definition triggered :: "Collab \<Rightarrow> Engine \<Rightarrow> Projectile \<Rightarrow> gov_id \<Rightarrow> real \<Rightarrow> bool" where
  "triggered ext st p gov triggerRadius =
     list_ex (\<lambda>body. Some body = pTarget p
                  \<or> gIsEnemy (government ext gov) (sGetGovernment (shipAt st body)))
       (Circle ext (shipCollisions st) (pPosition p) triggerRadius)"

definition ordinaryHit ::
  "Collab \<Rightarrow> Engine \<Rightarrow> Projectile \<Rightarrow> gov_id \<Rightarrow> Engine \<times> real \<times> ship_id option \<times> Point" where
  "ordinaryHit ext st p gov =
     (let triggerRadius = TriggerRadius (pGetWeapon p);
          st1 = (if triggerRadius \<noteq> 0 then log TriggerCircleCall st else st);
          closestHit1 = (if triggerRadius \<noteq> 0 \<and> triggered ext st p gov triggerRadius
                         then 0 else 1);
          st2 = (if closestHit1 > 0 then log LineCall st1 else st1);
          ship = (if closestHit1 > 0
                  then fst (Line ext (shipCollisions st) p closestHit1) else None);
          closestHit2 = (if closestHit1 > 0
                         then snd (Line ext (shipCollisions st) p closestHit1)
                         else closestHit1);
          hitVelocity = (case ship of None \<Rightarrow> (0, 0) | Some s \<Rightarrow> sVelocity (shipAt st s))
      in if \<not> IsPhasing (pGetWeapon p)
         then (let closestAsteroid = fst (AsteroidsCollide ext p closestHit2 hitVelocity);
                   hitVelocity2 = snd (AsteroidsCollide ext p closestHit2 hitVelocity);
                   st3 = log AsteroidsCollideCall st2
               in if closestAsteroid < closestHit2
                  then (st3, closestAsteroid, None, hitVelocity2)
                  else (st3, closestHit2, ship, hitVelocity2))
         else (st2, closestHit2, ship, hitVelocity))"

definition findHit ::
  "Collab \<Rightarrow> Engine \<Rightarrow> Projectile \<Rightarrow> Engine \<times> real \<times> ship_id option \<times> Point" where
  "findHit ext st p =
     (case pGetGovernment p of
        None \<Rightarrow> (st, 0, None, (0, 0))
      | Some gov \<Rightarrow>
          if IsPhasing (pGetWeapon p) \<and> pTarget p \<noteq> None
          then (let r = phasingHit ext st p in (fst r, fst (snd r), snd (snd r), (0, 0)))
          else ordinaryHit ext st p gov)"

text \<open>\<open>ship->TakeDamage(projectile, isBlast)\<close> and the event it may yield.\<close>

definition applyDamage :: "Collab \<Rightarrow> Projectile \<Rightarrow> ship_id \<Rightarrow> bool \<Rightarrow> Engine \<Rightarrow> Engine" where
  "applyDamage ext p ship isBlast st =
     (let eventType = fst (TakeDamage ext (shipAt st ship) p isBlast);
          st1 = log (TakeDamageCall ship isBlast)
                  (st\<lparr>shipAt := (shipAt st)(ship := snd (TakeDamage ext (shipAt st ship) p isBlast))\<rparr>)
      in if eventType \<noteq> 0
         then st1\<lparr>eventQueue := eventQueue st1
                    @ [\<lparr>evActor = ActorGovernment (pGetGovernment p), evTarget = ship,
                        evType = eventType\<rparr>]\<rparr>
         else st1)"

text \<open>
  One of the two blast loops, over the bodies a circle query returned. The test
  \<open>isSafe && projectile.Target() != body && !projectile.GetGovernment()->IsEnemy(...)\<close>
  reads the government only when the first two operands hold.
\<close>

fun blastLoop ::
  "Collab \<Rightarrow> Projectile \<Rightarrow> ship_id option \<Rightarrow> ship_id list \<Rightarrow> Engine \<Rightarrow> fault + Engine" where
  "blastLoop ext p hit [] st = Inr st"
| "blastLoop ext p hit (body # rest) st =
     (if IsSafe (pGetWeapon p) \<and> pTarget p \<noteq> Some body
      then (case pGetGovernment p of
              None \<Rightarrow> Inl NullDereference
            | Some gov \<Rightarrow>
                if \<not> gIsEnemy (government ext gov) (sGetGovernment (shipAt st body))
                then blastLoop ext p hit rest st
                else blastLoop ext p hit rest (applyDamage ext p body (Some body \<noteq> hit) st))
      else blastLoop ext p hit rest (applyDamage ext p body (Some body \<noteq> hit) st))"

text \<open>
  The anti-missile loop over \<open>hasAntiMissile\<close>. Its test
  \<open>ship == projectile.Target() || gov->IsEnemy(ship->GetGovernment())\<close> reads \<open>gov\<close> only
  when the ship is not the target.
\<close>

definition eligible ::
  "Collab \<Rightarrow> Engine \<Rightarrow> Projectile \<Rightarrow> gov_id option \<Rightarrow> ship_id \<Rightarrow> fault + bool" where
  "eligible ext st p gov ship =
     (if Some ship = pTarget p then Inr True
      else (case gov of
              None \<Rightarrow> Inl NullDereference
            | Some g \<Rightarrow> Inr (gIsEnemy (government ext g) (sGetGovernment (shipAt st ship)))))"

definition fireAt :: "Collab \<Rightarrow> ship_id \<Rightarrow> Projectile \<Rightarrow> Engine \<Rightarrow> Engine" where
  "fireAt ext ship p st =
     log (FireAntiMissileCall ship)
       (st\<lparr>shipAt := (shipAt st)(ship := fst (snd (FireAntiMissile ext (shipAt st ship) p))),
           visuals := visuals st @ snd (snd (FireAntiMissile ext (shipAt st ship) p))\<rparr>)"

fun antiMissile ::
  "Collab \<Rightarrow> gov_id option \<Rightarrow> ship_id list \<Rightarrow> Engine \<Rightarrow> Projectile
     \<Rightarrow> fault + (Engine \<times> Projectile)" where
  "antiMissile ext gov [] st p = Inr (st, p)"
| "antiMissile ext gov (ship # rest) st p =
     (case eligible ext st p gov ship of
        Inl e \<Rightarrow> Inl e
      | Inr ok \<Rightarrow>
          if ok
          then (if fst (FireAntiMissile ext (shipAt st ship) p)
                then Inr (log KillCall (fireAt ext ship p st), ProjectileKill ext p)
                else antiMissile ext gov rest (fireAt ext ship p st) p)
          else antiMissile ext gov rest st p)"

text \<open>
  \<open>DoCollisions(projectile)\<close> in three parts; the projectile is changed in place, so it
  is returned. First the damage once the projectile has exploded: the two blast loops when
  the weapon has a blast radius, or else the one ship that was hit.
\<close>

definition damageFrom ::
  "Collab \<Rightarrow> Projectile \<Rightarrow> real \<Rightarrow> ship_id option \<Rightarrow> Engine \<Rightarrow> fault + Engine" where
  "damageFrom ext p closestHit hit st2 =
     (let blastRadius = BlastRadius (pGetWeapon p);
          hitPos = addPoint (pPosition p) (scalePoint closestHit (pVelocity p))
      in if blastRadius \<noteq> 0
         then (case blastLoop ext p hit
                      (Circle ext (shipCollisions st2) hitPos blastRadius)
                      (log (BlastCircleCall False) st2) of
                 Inl e \<Rightarrow> Inl e
               | Inr st3 \<Rightarrow>
                   blastLoop ext p hit
                     (Circle ext (cloakedCollisions st3) hitPos blastRadius)
                     (log (BlastCircleCall True) st3))
         else (case hit of
                 None \<Rightarrow> Inr st2
               | Some h \<Rightarrow> Inr (applyDamage ext p h False st2)))"

text \<open>The branch \<open>if(closestHit < 1.)\<close>: explosion, damage, grudge.\<close>

definition detonate ::
  "Collab \<Rightarrow> Projectile \<Rightarrow> real \<Rightarrow> ship_id option \<Rightarrow> Point \<Rightarrow> Engine
     \<Rightarrow> fault + (Engine \<times> Projectile)" where
  "detonate ext p0 closestHit hit hitVelocity st1 =
     (let p = fst (ProjectileExplode ext p0 closestHit hitVelocity);
          st2 = log (ExplodeCall closestHit)
                  (st1\<lparr>visuals := visuals st1
                          @ snd (ProjectileExplode ext p0 closestHit hitVelocity)\<rparr>)
      in case damageFrom ext p closestHit hit st2 of
           Inl e \<Rightarrow> Inl e
         | Inr st4 \<Rightarrow>
             (case hit of
                None \<Rightarrow> Inr (st4, p)
              | Some h \<Rightarrow>
                  (case DoGrudge ext st4 h (pGetGovernment p) of
                     Inl e \<Rightarrow> Inl e
                   | Inr st5 \<Rightarrow> Inr (st5, p))))"

definition DoCollisions ::
  "Collab \<Rightarrow> Engine \<Rightarrow> Projectile \<Rightarrow> fault + (Engine \<times> Projectile)" where
  "DoCollisions ext st0 p0 =
     (let found = findHit ext (log (DoCollisionsCall p0) st0) p0;
          st1 = fst found;
          closestHit = fst (snd found);
          hit = fst (snd (snd found));
          hitVelocity = snd (snd (snd found))
      in if closestHit < 1
         then detonate ext p0 closestHit hit hitVelocity st1
         else if pMissileStrength p0 \<noteq> 0
         then antiMissile ext (pGetGovernment p0) (hasAntiMissile st1) st1 p0
         else Inr (st1, p0))"

text \<open>The loop \<open>for(Projectile &projectile : projectiles) DoCollisions(projectile);\<close>\<close>

fun collideAll ::
  "Collab \<Rightarrow> Projectile list \<Rightarrow> Engine \<Rightarrow> fault + (Engine \<times> Projectile list)" where
  "collideAll ext [] st = Inr (st, [])"
| "collideAll ext (p # rest) st =
     (case DoCollisions ext st p of
        Inl e \<Rightarrow> Inl e
      | Inr r \<Rightarrow>
          (case collideAll ext rest (fst r) of
             Inl e \<Rightarrow> Inl e
           | Inr rs \<Rightarrow> Inr (fst rs, snd r # snd rs)))"

section \<open>Flotsam collection\<close>

definition canCollect :: "Engine \<Rightarrow> Flotsam \<Rightarrow> ship_id \<Rightarrow> bool" where
  "canCollect st f ship \<longleftrightarrow>
     \<not> sCannotAct (shipAt st ship) \<and> Some ship \<noteq> fSource f
     \<and> fUnitSize f \<le> real_of_int (sCargoFree (shipAt st ship))"

definition pickedUpMessage :: "Collab \<Rightarrow> Ship \<Rightarrow> Flotsam \<Rightarrow> int \<Rightarrow> string" where
  "pickedUpMessage ext collector f amount =
     (let name = (if sGetParent collector \<noteq> None
                  then ''Your ship '' @ quote @ sName collector @ quote @ '' picked up ''
                  else ''You picked up '');
          commodity = (case fOutfitType f of
                         Some outfit \<Rightarrow> if oInstallable outfit < 0 then oName outfit else []
                       | None \<Rightarrow> fCommodityType f);
          message = (case fOutfitType f of
                       Some outfit \<Rightarrow>
                         if oInstallable outfit < 0 then []
                         else name @ FormatNumber ext (real_of_int amount) @ '' ''
                              @ (if amount = 1 then oName outfit else oPluralName outfit) @ ''.''
                     | None \<Rightarrow> []);
          amountInTons = real_of_int amount * fUnitSize f
      in if commodity \<noteq> []
         then name @ (if amountInTons = 1 then ''a ton''
                      else FormatNumber ext amountInTons @ '' tons'')
              @ '' of '' @ FormatLowerCase ext commodity @ ''.''
         else message)"

definition DoCollection :: "Collab \<Rightarrow> Engine \<Rightarrow> Flotsam \<Rightarrow> Engine \<times> Flotsam" where
  "DoCollection ext st0 f0 =
     (let st = log (DoCollectionCall f0) st0
      in case find (canCollect st f0) (Circle ext (shipCollisions st) (fPosition f0) 5) of
           None \<Rightarrow> (st, f0)
         | Some collector \<Rightarrow>
             (let amount = fst (TransferTo ext f0 (shipAt st collector));
                  f = fst (snd (TransferTo ext f0 (shipAt st collector)));
                  st1 = log (TransferToCall collector)
                          (st\<lparr>shipAt := (shipAt st)
                                (collector := snd (snd (TransferTo ext f0 (shipAt st collector))))\<rparr>);
                  ship = shipAt st1 collector
              in if \<not> sIsYours ship then (st1, f)
                 else (let st2 = (case fOutfitType f of
                                    Some outfit \<Rightarrow>
                                      if oInstallable outfit < 0
                                      then log (HarvestCall outfit) st1 else st1
                                  | None \<Rightarrow> st1);
                           message = pickedUpMessage ext ship f amount
                       in if message \<noteq> []
                          then (st2\<lparr>messages := messages st2
                                  @ [message @ '' (''
                                     @ FormatNumber ext (real_of_int (sCargoFree ship))
                                     @ (if sCargoFree ship = 1 then '' ton'' else '' tons'')
                                     @ '' of free space remaining.)'']\<rparr>, f)
                          else (st2, f))))"

text \<open>The loop \<open>for(const shared_ptr<Flotsam> &it : flotsam) DoCollection(*it);\<close>\<close>

fun collectAll :: "Collab \<Rightarrow> Flotsam list \<Rightarrow> Engine \<Rightarrow> Engine \<times> Flotsam list" where
  "collectAll ext [] st = (st, [])"
| "collectAll ext (f # rest) st =
     (let r = DoCollection ext st f; rs = collectAll ext rest (fst r)
      in (fst rs, snd r # snd rs))"

section \<open>The mover and the step\<close>

text \<open>
  \<open>MoveShip(ship)\<close>, after its three later parts: the hyperspace sounds
  (\<open>Audio::Play\<close> is recorded in the trace), boarding, and the actions of a ship in the
  player's system.
\<close>

definition hyperspaceSounds ::
  "ship_id option \<Rightarrow> bool \<Rightarrow> bool \<Rightarrow> bool \<Rightarrow> Engine \<Rightarrow> ship_id \<Rightarrow> Engine" where
  "hyperspaceSounds flagship isJump wasHere wasHyperspacing st1 ship =
     (let audible = (Some ship \<noteq> flagship \<and> sZoom (shipAt st1 ship) = 1);
          st2 = (if audible \<and> wasHere \<and> \<not> wasHyperspacing
                    \<and> sIsHyperspacing (shipAt st1 ship)
                 then log (PlayCall (if isJump then ''jump out'' else ''hyperdrive out'')) st1
                 else st1)
      in if audible \<and> \<not> wasHere
            \<and> (case flagship of
                  None \<Rightarrow> False
                | Some f \<Rightarrow> sGetSystem (shipAt st2 ship) = sGetSystem (shipAt st2 f))
         then log (PlayCall (if isJump then ''jump in'' else ''hyperdrive in'')) st2
         else st2)"

definition boardShip :: "Collab \<Rightarrow> Engine \<Rightarrow> ship_id \<Rightarrow> Engine" where
  "boardShip ext st3 ship =
     (let autoPlunder = (\<not> gIsPlayer (government ext (sGetGovernment (shipAt st3 ship))));
          boarded = ShipBoard ext (shipAt st3) ship autoPlunder;
          st4 = st3\<lparr>shipAt := fst boarded\<rparr>
      in case snd boarded of
           None \<Rightarrow> st4
         | Some victim \<Rightarrow>
             st4\<lparr>eventQueue := eventQueue st4
                @ [\<lparr>evActor = ActorShip (Some ship), evTarget = victim,
                    evType = (if gIsEnemy (government ext (sGetGovernment (shipAt st4 ship)))
                                    (sGetGovernment (shipAt st4 victim))
                              then BOARD ext else ASSIST ext)\<rparr>]\<rparr>)"

definition launchAndFire :: "Collab \<Rightarrow> Engine \<Rightarrow> ship_id \<Rightarrow> Engine" where
  "launchAndFire ext st5 ship =
     (if sGetSystem (shipAt st5 ship) \<noteq> playerSystem st5 then st5
      else (let launched = ShipLaunch ext (shipAt st5) ship;
                st6 = st5\<lparr>shipAt := fst launched,
                          newShips := newShips st5 @ snd launched\<rparr>;
                fired = ShipFire ext (shipAt st6) ship;
                st7 = st6\<lparr>shipAt := fst fired,
                          newProjectiles := newProjectiles st6 @ fst (snd fired),
                          newVisuals := newVisuals st6 @ fst (snd (snd fired))\<rparr>
            in if snd (snd (snd fired))
               then st7\<lparr>hasAntiMissile := hasAntiMissile st7 @ [ship]\<rparr>
               else st7))"

definition MoveShip :: "Collab \<Rightarrow> Engine \<Rightarrow> ship_id \<Rightarrow> Engine" where
  "MoveShip ext st0 ship =
     (let flagship = playerFlagship st0;
          isJump = sIsUsingJumpDrive (shipAt st0 ship);
          wasHere = (case flagship of
                       None \<Rightarrow> False
                     | Some f \<Rightarrow> sGetSystem (shipAt st0 ship) = sGetSystem (shipAt st0 f));
          wasHyperspacing = sIsHyperspacing (shipAt st0 ship);
          st1 = log (ShipMoveCall ship)
                  (st0\<lparr>shipAt := fst (ShipMove ext (shipAt st0) ship),
                       newVisuals := newVisuals st0 @ fst (snd (ShipMove ext (shipAt st0) ship)),
                       newFlotsam := newFlotsam st0 @ snd (snd (ShipMove ext (shipAt st0) ship))\<rparr>)
      in if sShouldBeRemoved (shipAt st1 ship)
         then st1\<lparr>eventQueue := eventQueue st1
                    @ [\<lparr>evActor = ActorGovernment None, evTarget = ship, evType = DESTROY ext\<rparr>]\<rparr>
         else launchAndFire ext
                (boardShip ext
                   (hyperspaceSounds flagship isJump wasHere wasHyperspacing st1 ship) ship) ship)"

text \<open>The loops that move the flotsam, the projectiles and the visuals in place.\<close>

fun moveFlotsam :: "Collab \<Rightarrow> Flotsam list \<Rightarrow> Engine \<Rightarrow> Engine \<times> Flotsam list" where
  "moveFlotsam ext [] st = (st, [])"
| "moveFlotsam ext (f # rest) st =
     (let rs = moveFlotsam ext rest
                 (log (FlotsamMoveCall f)
                    (st\<lparr>newVisuals := newVisuals st @ snd (FlotsamMove ext f)\<rparr>))
      in (fst rs, fst (FlotsamMove ext f) # snd rs))"

fun moveProjectiles :: "Collab \<Rightarrow> Projectile list \<Rightarrow> Engine \<Rightarrow> Engine \<times> Projectile list" where
  "moveProjectiles ext [] st = (st, [])"
| "moveProjectiles ext (p # rest) st =
     (let rs = moveProjectiles ext rest
                 (log (ProjectileMoveCall p)
                    (st\<lparr>newVisuals := newVisuals st @ fst (snd (ProjectileMove ext p)),
                        newProjectiles := newProjectiles st @ snd (snd (ProjectileMove ext p))\<rparr>))
      in (fst rs, fst (ProjectileMove ext p) # snd rs))"

fun moveVisuals :: "Collab \<Rightarrow> Visual list \<Rightarrow> Engine \<Rightarrow> Engine \<times> Visual list" where
  "moveVisuals ext [] st = (st, [])"
| "moveVisuals ext (v # rest) st =
     (let rs = moveVisuals ext rest (log (VisualMoveCall v) st)
      in (fst rs, VisualMove ext v # snd rs))"

text \<open>
  \<open>EnterSystem()\<close>, as far as the fields of the model go: the fleets and raids it
  places go straight to \<open>ships\<close>, its messages are added, and the grudges, projectiles,
  visuals, flotsam and the three staging buffers are cleared. What it places and says
  is \<open>EnterSystemEffects\<close>.
\<close>

definition EnterSystem :: "Collab \<Rightarrow> Engine \<Rightarrow> Engine" where
  "EnterSystem ext st =
     (case playerFlagship st of
        None \<Rightarrow> st
      | Some flagship \<Rightarrow>
          st\<lparr>shipAt := fst (EnterSystemEffects ext st),
             ships := ships st @ fst (snd (EnterSystemEffects ext st)),
             messages := messages st @ snd (snd (EnterSystemEffects ext st)),
             grudge := Map.empty,
             projectiles := [], visuals := [], flotsam := [],
             newProjectiles := [], newVisuals := [], newFlotsam := []\<rparr>)"

definition DoScanning :: "Collab \<Rightarrow> Engine \<Rightarrow> ship_id \<Rightarrow> Engine" where
  "DoScanning ext st ship =
     (let scan = snd (ShipScan ext (shipAt st) ship);
          st1 = st\<lparr>shipAt := fst (ShipScan ext (shipAt st) ship)\<rparr>
      in if scan \<noteq> 0
         then (case lock st1 (sTargetShip (shipAt st1 ship)) of
                 None \<Rightarrow> st1
               | Some target \<Rightarrow>
                   if sIsTargetable (shipAt st1 target)
                   then st1\<lparr>eventQueue := eventQueue st1
                           @ [\<lparr>evActor = ActorShip (Some ship), evTarget = target,
                               evType = scan\<rparr>]\<rparr>
                   else st1)
         else st1)"

text \<open>
  \<open>CalculateStep()\<close> in parts. First everything up to \<open>HandleMouseClicks()\<close>: the
  entities that are live are moved and pruned, and whatever is created goes to the
  staging buffers (or, on entering a system, straight to \<open>ships\<close>). The radar, the
  planets and asteroids of the draw list, the wormhole bookkeeping and the load
  counters are outside the model. \<open>moveShips\<close> runs from \<open>ai.Step\<close> to \<open>Prune(ships)\<close>,
  \<open>moveOthers\<close> from \<open>asteroids.Step\<close> to \<open>Prune(visuals)\<close>, and \<open>movePass\<close> adds the "minor
  actions".
\<close>

definition moveShips :: "Collab \<Rightarrow> Engine \<Rightarrow> Engine" where
  "moveShips ext st0 =
     (let st1 = st0\<lparr>shipAt := AIStep ext st0\<rparr>;
          st2 = st1\<lparr>shipAt := fst (DeployDefense ext st1),
                    newShips := newShips st1 @ snd (DeployDefense ext st1)\<rparr>;
          flagship = playerFlagship st2;
          wasHyperspacing = (case flagship of
                               None \<Rightarrow> False
                             | Some f \<Rightarrow> IsEnteringHyperspace ext (shipAt st2 f));
          st3 = foldl (MoveShip ext) st2 (ships st2);
          st4 = (case flagship of
                   None \<Rightarrow> st3
                 | Some f \<Rightarrow>
                     if \<not> wasHyperspacing \<and> IsEnteringHyperspace ext (shipAt st3 f)
                     then log (PlayCall (if sIsUsingJumpDrive (shipAt st3 f)
                                         then ''jump drive'' else ''hyperdrive'')) st3
                     else st3);
          st5 = (case flagship of
                   None \<Rightarrow> st4
                 | Some f \<Rightarrow>
                     if playerSystem st4 \<noteq> sGetSystem (shipAt st4 f)
                     then EnterSystem ext (st4\<lparr>playerSystem := sGetSystem (shipAt st4 f)\<rparr>)
                     else st4)
      in st5\<lparr>ships := PruneList (\<lambda>i. sShouldBeRemoved (shipAt st5 i)) (ships st5)\<rparr>)"

definition moveOthers :: "Collab \<Rightarrow> Engine \<Rightarrow> Engine" where
  "moveOthers ext st6 =
     (let st7 = st6\<lparr>newVisuals := newVisuals st6 @ fst (AsteroidsStep ext st6),
                    newFlotsam := newFlotsam st6 @ snd (AsteroidsStep ext st6)\<rparr>;
          fl = moveFlotsam ext (flotsam st7) st7;
          st8 = (fst fl)\<lparr>flotsam := PruneList fShouldBeRemoved (snd fl)\<rparr>;
          pr = moveProjectiles ext (projectiles st8) st8;
          st9 = (fst pr)\<lparr>projectiles := PruneVector pShouldBeRemoved (snd pr)\<rparr>;
          vi = moveVisuals ext (visuals st9) st9
      in (fst vi)\<lparr>visuals := PruneVector vShouldBeRemoved (snd vi)\<rparr>)"

definition movePass :: "Collab \<Rightarrow> Engine \<Rightarrow> fault + Engine" where
  "movePass ext st0 =
     (case SpawnFleets ext (moveOthers ext (moveShips ext st0)) of
        Inl e \<Rightarrow> Inl e
      | Inr st11 \<Rightarrow>
          (case SpawnPersons ext st11 of
             Inl e \<Rightarrow> Inl e
           | Inr st12 \<Rightarrow>
               (case SendHails ext st12 of
                  Inl e \<Rightarrow> Inl e
                | Inr st13 \<Rightarrow>
                    Inr (st13\<lparr>shipAt := fst (MouseClickEffects ext st13),
                               messages := messages st13 @ snd (MouseClickEffects ext st13)\<rparr>))))"

text \<open>The single merge point: the four staging buffers go to the end of the live lists.\<close>

definition merge :: "Engine \<Rightarrow> Engine" where
  "merge st =
     st\<lparr>ships := ships st @ newShips st, newShips := [],
        projectiles := fst (Append (projectiles st) (newProjectiles st)),
        newProjectiles := snd (Append (projectiles st) (newProjectiles st)),
        flotsam := flotsam st @ newFlotsam st, newFlotsam := [],
        visuals := fst (Append (visuals st) (newVisuals st)),
        newVisuals := snd (Append (visuals st) (newVisuals st))\<rparr>"

text \<open>From \<open>FillCollisionSets()\<close> to the scanning loop.\<close>

definition collisionPass :: "Collab \<Rightarrow> Engine \<Rightarrow> fault + Engine" where
  "collisionPass ext st0 =
     (let st1 = FillCollisionSets st0
      in case collideAll ext (projectiles st1) st1 of
           Inl e \<Rightarrow> Inl e
         | Inr collided \<Rightarrow>
             (let st2 = (fst collided)\<lparr>projectiles := snd collided, hasAntiMissile := []\<rparr>;
                  collected = collectAll ext (flotsam st2) st2;
                  st3 = (fst collected)\<lparr>flotsam := snd collected\<rparr>
              in Inr (foldl (DoScanning ext) st3 (ships st3))))"

text \<open>The draw list: flotsam, ships (the flagship last), projectiles, visuals.\<close>

definition drawPass :: "Engine \<Rightarrow> Engine" where
  "drawPass st =
     st\<lparr>drawList := drawList st
          @ map DrawFlotsam (flotsam st)
          @ map DrawShip (filter (\<lambda>ship. sGetSystem (shipAt st ship) = playerSystem st
                                       \<and> sHasSprite (shipAt st ship)
                                       \<and> Some ship \<noteq> playerFlagship st) (ships st))
          @ (case playerFlagship st of
               None \<Rightarrow> []
             | Some flagship \<Rightarrow> if sHasSprite (shipAt st flagship) then [DrawShip flagship] else [])
          @ map DrawProjectile (projectiles st)
          @ map DrawVisual (visuals st)\<rparr>"

definition CalculateStep :: "Collab \<Rightarrow> Engine \<Rightarrow> fault + Engine" where
  "CalculateStep ext st0 =
     (let st = st0\<lparr>drawList := []\<rparr>
      in case playerSystem st of
           None \<Rightarrow> Inr st
         | Some system \<Rightarrow>
             (case movePass ext st of
                Inl e \<Rightarrow> Inl e
              | Inr moved \<Rightarrow>
                  (case collisionPass ext (tickGrudgeTime (merge moved)) of
                     Inl e \<Rightarrow> Inl e
                   | Inr collided \<Rightarrow> Inr (drawPass collided))))"

section \<open>The claims' own notions\<close>

text \<open>
  Written from the words of the specification, to compare the code with: the ships
  that are anti-missile-ready this step and eligible against a projectile (its locked
  target, or an enemy of its government), whether a ship's interception attempt
  succeeds, and "first successful attempt wins": the candidates are tried in order
  up to and including the first success.
\<close>

definition interceptors :: "Collab \<Rightarrow> Engine \<Rightarrow> Projectile \<Rightarrow> ship_id list" where
  "interceptors ext st p =
     filter (\<lambda>ship. Some ship = pTarget p
                  \<or> (case pGetGovernment p of
                        None \<Rightarrow> False
                      | Some gov \<Rightarrow>
                          gIsEnemy (government ext gov) (sGetGovernment (shipAt st ship))))
       (hasAntiMissile st)"

definition intercepts :: "Collab \<Rightarrow> Engine \<Rightarrow> Projectile \<Rightarrow> ship_id \<Rightarrow> bool" where
  "intercepts ext st p ship = fst (FireAntiMissile ext (shipAt st ship) p)"

fun triedUntilSuccess :: "('a \<Rightarrow> bool) \<Rightarrow> 'a list \<Rightarrow> 'a list" where
  "triedUntilSuccess succeeds [] = []"
| "triedUntilSuccess succeeds (x # xs) =
     x # (if succeeds x then [] else triedUntilSuccess succeeds xs)"


section \<open>Reading the trace\<close>

text \<open>The kinds of calls that the theorems pick out of a trace.\<close>

definition isMove :: "Call \<Rightarrow> bool" where
  "isMove c = (case c of ShipMoveCall i \<Rightarrow> True | FlotsamMoveCall f \<Rightarrow> True
                 | ProjectileMoveCall p \<Rightarrow> True | VisualMoveCall v \<Rightarrow> True | _ \<Rightarrow> False)"

definition isShipMove :: "Call \<Rightarrow> bool" where
  "isShipMove c = (case c of ShipMoveCall i \<Rightarrow> True | _ \<Rightarrow> False)"

definition isDoCollisions :: "Call \<Rightarrow> bool" where
  "isDoCollisions c = (case c of DoCollisionsCall p \<Rightarrow> True | _ \<Rightarrow> False)"

definition isDoCollection :: "Call \<Rightarrow> bool" where
  "isDoCollection c = (case c of DoCollectionCall f \<Rightarrow> True | _ \<Rightarrow> False)"

definition isIndexQuery :: "Call \<Rightarrow> bool" where
  "isIndexQuery c = (case c of TriggerCircleCall \<Rightarrow> True | LineCall \<Rightarrow> True
                       | AsteroidsCollideCall \<Rightarrow> True | _ \<Rightarrow> False)"

definition isMaskCollide :: "Call \<Rightarrow> bool" where
  "isMaskCollide c = (case c of MaskCollideCall i \<Rightarrow> True | _ \<Rightarrow> False)"

definition isTakeDamage :: "Call \<Rightarrow> bool" where
  "isTakeDamage c = (case c of TakeDamageCall i b \<Rightarrow> True | _ \<Rightarrow> False)"

definition isFireAntiMissile :: "Call \<Rightarrow> bool" where
  "isFireAntiMissile c = (case c of FireAntiMissileCall i \<Rightarrow> True | _ \<Rightarrow> False)"

definition isKill :: "Call \<Rightarrow> bool" where
  "isKill c = (case c of KillCall \<Rightarrow> True | _ \<Rightarrow> False)"

definition isResolution :: "Call \<Rightarrow> bool" where
  "isResolution c = (case c of ExplodeCall x \<Rightarrow> True | BlastCircleCall b \<Rightarrow> True
                       | TakeDamageCall i b \<Rightarrow> True | FireAntiMissileCall i \<Rightarrow> True
                       | KillCall \<Rightarrow> True | _ \<Rightarrow> False)"

text \<open>
  A call that may follow the search for a hit, when \<open>hit\<close> is what the search found:
  damage that is not blast damage goes to \<open>hit\<close> only.
\<close>

definition afterHit :: "ship_id option \<Rightarrow> Call \<Rightarrow> bool" where
  "afterHit hit c \<longleftrightarrow>
     isResolution c \<and> (case c of TakeDamageCall i False \<Rightarrow> hit = Some i | _ \<Rightarrow> True)"


text \<open>The calls made inside \<open>DoCollisions\<close> and inside \<open>DoCollection\<close>.\<close>

definition isInner :: "Call \<Rightarrow> bool" where
  "isInner c \<longleftrightarrow> isIndexQuery c \<or> isMaskCollide c \<or> isResolution c"

definition isPickup :: "Call \<Rightarrow> bool" where
  "isPickup c = (case c of TransferToCall i \<Rightarrow> True | HarvestCall outfit \<Rightarrow> True | _ \<Rightarrow> False)"

text \<open>
  The calls that process an entity: a move, and the collision and collection passes.
\<close>

definition isHandling :: "Call \<Rightarrow> bool" where
  "isHandling c \<longleftrightarrow> isMove c \<or> isDoCollisions c \<or> isDoCollection c"

text \<open>
  \<open>untouched st st'\<close>: the live projectiles, flotsam and visuals and the draw list of
  \<open>st'\<close> are those of \<open>st\<close>.
\<close>

definition untouched :: "Engine \<Rightarrow> Engine \<Rightarrow> bool" where
  "untouched st st' \<longleftrightarrow>
     projectiles st' = projectiles st \<and> flotsam st' = flotsam st \<and> visuals st' = visuals st
     \<and> drawList st' = drawList st"

text \<open>
  \<open>keeps st st'\<close>: from \<open>st\<close> to \<open>st'\<close> no entity entered or left a live list, a staging
  buffer or a collision set, but for visuals added at the end of the live visuals.
\<close>

definition keeps :: "Engine \<Rightarrow> Engine \<Rightarrow> bool" where
  "keeps st st' \<longleftrightarrow>
     ships st' = ships st \<and> newShips st' = newShips st
     \<and> projectiles st' = projectiles st \<and> newProjectiles st' = newProjectiles st
     \<and> flotsam st' = flotsam st \<and> newFlotsam st' = newFlotsam st
     \<and> newVisuals st' = newVisuals st
     \<and> shipCollisions st' = shipCollisions st \<and> cloakedCollisions st' = cloakedCollisions st
     \<and> playerSystem st' = playerSystem st \<and> playerFlagship st' = playerFlagship st
     \<and> drawList st' = drawList st
     \<and> (\<exists>added. visuals st' = visuals st @ added)"


section \<open>Concrete inputs\<close>

text \<open>
  A still world, for evaluating the engine on concrete inputs: a parked ship, an inert
  projectile, collaborators that change nothing, draw 1 and never report a hit, and an
  engine that holds no entity. Concrete inputs are updates of these.
\<close>

definition parkedShip :: Ship where
  "parkedShip = \<lparr>sGetGovernment = 0, sGetSystem = Some 0, sZoom = 1, sCloaking = 0,
     sPosition = (0, 0), sVelocity = (0, 0), sShouldBeRemoved = False, sIsDisabled = False,
     sCannotAct = False, sCargoFree = 0, sIsYours = False, sGetParent = None,
     sName = ''Ship'', sNoun = ''ship'', sModelName = ''Model'', sCrew = 1,
     sIsMute = False, sIsHeroic = False, sShields = 1, sHull = 1, sCost = 1,
     sTargetShip = None, sIsTargetable = True, sHasSprite = True,
     sIsHyperspacing = False, sIsUsingJumpDrive = False, sHail = []\<rparr>"

definition plainWeapon :: Weapon where
  "plainWeapon = \<lparr>IsPhasing = False, TriggerRadius = 0, BlastRadius = 0, IsSafe = False\<rparr>"

definition inertProjectile :: Projectile where
  "inertProjectile = \<lparr>pPosition = (0, 0), pVelocity = (0, 0), pGetGovernment = Some 1,
     pGetWeapon = plainWeapon, pTarget = None, pTargetShip = None, pMissileStrength = 0,
     pShouldBeRemoved = False\<rparr>"

definition neutralGovernment :: Government where
  "neutralGovernment = \<lparr>gGetName = ''Neutral'', gIsPlayer = False, gIsEnemyOfPlayer = False,
     gIsEnemy = (\<lambda>other. False), gLanguage = []\<rparr>"

definition stillWorld :: Collab where
  "stillWorld = \<lparr>government = (\<lambda>g. neutralGovernment),
     DESTROY = 128, BOARD = 32, ASSIST = 1,
     RandomInt = (\<lambda>k n. 1), RandomReal = (\<lambda>k. 1),
     Fleets = (\<lambda>system. []), LinksEmpty = (\<lambda>system. False), Persons = [],
     EnemyStrength = (\<lambda>g. 0), AllyStrength = (\<lambda>g. 0),
     FleetEnter = (\<lambda>st i. (shipAt st, [])),
     ShipRecharge = (\<lambda>ship. ship), FleetEnterShip = (\<lambda>st ship. ship),
     AIStep = (\<lambda>st. shipAt st), DeployDefense = (\<lambda>st. (shipAt st, [])),
     ShipMove = (\<lambda>store i. (store, [], [])),
     ShipBoard = (\<lambda>store i autoPlunder. (store, None)),
     ShipLaunch = (\<lambda>store i. (store, [])),
     ShipFire = (\<lambda>store i. (store, [], [], False)),
     ShipScan = (\<lambda>store i. (store, 0)),
     IsEnteringHyperspace = (\<lambda>ship. False),
     EnterSystemEffects = (\<lambda>st. (shipAt st, [], [])),
     AsteroidsStep = (\<lambda>st. ([], [])),
     FlotsamMove = (\<lambda>f. (f, [])),
     ProjectileMove = (\<lambda>p. (p, [], [])),
     VisualMove = (\<lambda>v. v),
     GetHail = (\<lambda>ship. []), PlayerIsDead = False,
     MouseClickEffects = (\<lambda>st. (shipAt st, [])),
     Intersects = (\<lambda>b center radius. False),
     Line = (\<lambda>bodies p closestHit. (None, closestHit)),
     MaskCollide = (\<lambda>ship offset velocity. 1),
     AsteroidsCollide = (\<lambda>p closestHit hitVelocity. (1, hitVelocity)),
     ProjectileExplode = (\<lambda>p closestHit hitVelocity. (p\<lparr>pShouldBeRemoved := True\<rparr>, [])),
     ProjectileKill = (\<lambda>p. p\<lparr>pShouldBeRemoved := True\<rparr>),
     TakeDamage = (\<lambda>ship p isBlast. (0, ship)),
     FireAntiMissile = (\<lambda>ship p. (False, ship, [])),
     TransferTo = (\<lambda>f ship. (0, f, ship)),
     FormatNumber = (\<lambda>x. ''n''), FormatLowerCase = (\<lambda>text. text),
     GetCondition = (\<lambda>name. 0), LastName = ''Doe''\<rparr>"



definition crate :: Flotsam where
  "crate = \<lparr>fPosition = (0, 0), fSource = None, fUnitSize = 1, fOutfitType = None,
     fCommodityType = ''Food'', fShouldBeRemoved = False\<rparr>"

definition hostileGovernment :: Government where
  "hostileGovernment = \<lparr>gGetName = ''Pirate'', gIsPlayer = False, gIsEnemyOfPlayer = True,
     gIsEnemy = (\<lambda>other. True), gLanguage = []\<rparr>"



definition emptyEngine :: Engine where
  "emptyEngine = \<lparr>playerSystem = Some 0, playerFlagship = None,
     shipAt = (\<lambda>i. parkedShip), expired = (\<lambda>i. False),
     ships = [], newShips = [], projectiles = [], newProjectiles = [],
     flotsam = [], newFlotsam = [], visuals = [], newVisuals = [],
     hasAntiMissile = [], shipCollisions = [], cloakedCollisions = [],
     grudge = Map.empty, grudgeTime = 0, eventQueue = [], messages = [],
     drawList = [], draws = 0, trace = []\<rparr>"


text \<open>
  Ship 3 jettisons a crate when it moves, launches ship 9 and fires an inert
  projectile.
\<close>

definition salvoWorld :: Collab where
  "salvoWorld = stillWorld\<lparr>
     ShipMove := (\<lambda>store i. (store, [], [crate])),
     ShipLaunch := (\<lambda>store i. (store, [9])),
     ShipFire := (\<lambda>store i. (store, [inertProjectile], [], False))\<rparr>"

definition gunboat :: Engine where
  "gunboat = emptyEngine\<lparr>ships := [3]\<rparr>"

section \<open>Proofs: the double-buffer handoff\<close>

lemma handoff_initial: "handoff (initial b)"
  by (simp add: handoff_def initial_def)

lemma handoff_fire_cases:
  "handoff s \<Longrightarrow> (case fire a s of None \<Rightarrow> True | Some s' \<Rightarrow> handoff s')"
  by (cases a; cases "workerAt s"; cases "foregroundAt s"; cases "calcTickTock s";
      cases "drawTickTock s"; cases "terminate s")
     (simp_all add: handoff_def)

lemma handoff_fire: "handoff s \<Longrightarrow> fire a s = Some s' \<Longrightarrow> handoff s'"
  using handoff_fire_cases [of s a] by simp

lemma handoff_run: "handoff s \<Longrightarrow> run acts s = Some s' \<Longrightarrow> handoff s'"
proof (induction acts arbitrary: s)
  case Nil
  then show ?case by simp
next
  case (Cons a acts)
  from Cons.prems(2) obtain t where t: "fire a s = Some t" and r: "run acts t = Some s'"
    by (cases "fire a s") simp_all
  from handoff_fire [OF Cons.prems(1) t] have "handoff t" .
  from Cons.IH [OF this r] show ?case .
qed

lemma handoff_reachable: "run acts (initial b) = Some s \<Longrightarrow> handoff s"
  by (rule handoff_run [OF handoff_initial])

text \<open>
  C1, as the code has it. In every state the protocol reaches from the initial one:
  while the worker is inside \<open>CalculateStep()\<close> the slot it writes is not the slot
  that is drawn; and whenever \<open>Wait()\<close> can return, the worker is idle at its wait
  point, the two indices are equal (no slot is being calculated), every \<open>Go()\<close> so far
  has been answered by one \<open>CalculateStep()\<close>, and exactly one \<open>CalculateStep()\<close>
  has returned since the last \<open>Go()\<close>, or none when \<open>Go()\<close> was never called.
\<close>

theorem tick_tock_handoff:
  assumes "run acts (initial b) = Some s"
  shows "(calculatingSlot s = None \<or> calculatingSlot s = Some (\<not> drawSlot s))
       \<and> (fire WaitReturns s = None
          \<or> (workerAt s = WorkerWaiting \<and> calculatingSlot s = None
             \<and> calcTickTock s = drawTickTock s \<and> calcsDone s = goCalls s
             \<and> calcsSinceGo s = (if goCalls s = 0 then 0 else 1)))"
proof -
  from handoff_reachable [OF assms] have h: "handoff s" .
  have slot: "calculatingSlot s = None \<or> calculatingSlot s = Some (\<not> drawSlot s)"
    using h by (cases "workerAt s"; cases "calcTickTock s"; cases "drawTickTock s")
      (simp_all add: handoff_def calculatingSlot_def drawSlot_def)
  have wait: "fire WaitReturns s = None
          \<or> (workerAt s = WorkerWaiting \<and> calculatingSlot s = None
             \<and> calcTickTock s = drawTickTock s \<and> calcsDone s = goCalls s
             \<and> calcsSinceGo s = (if goCalls s = 0 then 0 else 1))"
    using h by (cases "workerAt s"; cases "foregroundAt s"; cases "calcTickTock s";
        cases "drawTickTock s"; cases "terminate s")
      (simp_all add: handoff_def calculatingSlot_def)
  from slot wait show ?thesis by (rule conjI)
qed

theorem tick_tock_handoff_witness:
  "run [WaitReturns, StepCall, GoCall, WorkerWakes] (initial False)
     = Some \<lparr>calcTickTock = False, drawTickTock = True, terminate = False, step = 1,
         workerAt = WorkerCalculating, foregroundAt = BeforeWait,
         calcsDone = 0, calcsSinceGo = 0, goCalls = 1\<rparr>
   \<and> calculatingSlot \<lparr>calcTickTock = False, drawTickTock = True, terminate = False, step = 1,
         workerAt = WorkerCalculating, foregroundAt = BeforeWait,
         calcsDone = 0, calcsSinceGo = 0, goCalls = 1\<rparr> = Some False
   \<and> fire WaitReturns \<lparr>calcTickTock = False, drawTickTock = True, terminate = False, step = 1,
         workerAt = WorkerCalculating, foregroundAt = BeforeWait,
         calcsDone = 0, calcsSinceGo = 0, goCalls = 1\<rparr> = None"
proof -
  have r: "run [WaitReturns, StepCall, GoCall, WorkerWakes] (initial False)
     = Some \<lparr>calcTickTock = False, drawTickTock = True, terminate = False, step = 1,
         workerAt = WorkerCalculating, foregroundAt = BeforeWait,
         calcsDone = 0, calcsSinceGo = 0, goCalls = 1\<rparr>"
    by (simp add: initial_def)
  from tick_tock_handoff [OF r] r show ?thesis
    by (simp add: calculatingSlot_def drawSlot_def)
qed

text \<open>
  C1 as the spec words it fails: the first \<open>Wait()\<close> returns with no calculation
  completed, and both there and after a whole frame (the worker has published and
  waits again, \<open>Wait()\<close> can return) neither slot is being calculated into and the two
  indices name the same slot.
\<close>

theorem tick_tock_idle_counterexample:
  "fire WaitReturns (initial False) = Some ((initial False)\<lparr>foregroundAt := BeforeStep\<rparr>)
   \<and> calcsDone (initial False) = 0
   \<and> calculatingSlot (initial False) = None
   \<and> run [WaitReturns, StepCall, GoCall, WorkerWakes, CalculateStepReturns, WorkerPublishes]
        (initial False)
      = Some \<lparr>calcTickTock = True, drawTickTock = True, terminate = False, step = 1,
          workerAt = WorkerWaiting, foregroundAt = BeforeWait,
          calcsDone = 1, calcsSinceGo = 1, goCalls = 1\<rparr>
   \<and> calculatingSlot \<lparr>calcTickTock = True, drawTickTock = True, terminate = False, step = 1,
          workerAt = WorkerWaiting, foregroundAt = BeforeWait,
          calcsDone = 1, calcsSinceGo = 1, goCalls = 1\<rparr> = None"
  by (simp add: initial_def calculatingSlot_def)

section \<open>Proofs: the spawn scheduler\<close>






















section \<open>Proofs: fields that a call leaves alone\<close>

lemma log_fields:
  "trace (log c st) = trace st @ [c]"
  "playerSystem (log c st) = playerSystem st"
  "playerFlagship (log c st) = playerFlagship st"
  "shipAt (log c st) = shipAt st"
  "expired (log c st) = expired st"
  "ships (log c st) = ships st"
  "newShips (log c st) = newShips st"
  "projectiles (log c st) = projectiles st"
  "newProjectiles (log c st) = newProjectiles st"
  "flotsam (log c st) = flotsam st"
  "newFlotsam (log c st) = newFlotsam st"
  "visuals (log c st) = visuals st"
  "newVisuals (log c st) = newVisuals st"
  "hasAntiMissile (log c st) = hasAntiMissile st"
  "shipCollisions (log c st) = shipCollisions st"
  "cloakedCollisions (log c st) = cloakedCollisions st"
  "grudge (log c st) = grudge st"
  "grudgeTime (log c st) = grudgeTime st"
  "eventQueue (log c st) = eventQueue st"
  "messages (log c st) = messages st"
  "drawList (log c st) = drawList st"
  "draws (log c st) = draws st"
  by (simp_all add: log_def)

lemma findHit_fields:
  "shipAt (fst (findHit ext st p)) = shipAt st"
  "hasAntiMissile (fst (findHit ext st p)) = hasAntiMissile st"
  "shipCollisions (fst (findHit ext st p)) = shipCollisions st"
  "cloakedCollisions (fst (findHit ext st p)) = cloakedCollisions st"
  "visuals (fst (findHit ext st p)) = visuals st"
  "eventQueue (fst (findHit ext st p)) = eventQueue st"
  "expired (fst (findHit ext st p)) = expired st"
  "playerSystem (fst (findHit ext st p)) = playerSystem st"
  "grudge (fst (findHit ext st p)) = grudge st"
  "grudgeTime (fst (findHit ext st p)) = grudgeTime st"
  "messages (fst (findHit ext st p)) = messages st"
  "draws (fst (findHit ext st p)) = draws st"
  "ships (fst (findHit ext st p)) = ships st"
  by (simp_all add: findHit_def phasingHit_def ordinaryHit_def Let_def log_fields
        split: option.split)

lemma findHit_no_government:
  "pGetGovernment p = None \<Longrightarrow> findHit ext st p = (st, 0, None, (0, 0))"
  by (simp add: findHit_def)

lemma findHit_later_calls:
  "filter isFireAntiMissile (trace (fst (findHit ext st p))) = filter isFireAntiMissile (trace st)"
  "filter isKill (trace (fst (findHit ext st p))) = filter isKill (trace st)"
  "filter isTakeDamage (trace (fst (findHit ext st p))) = filter isTakeDamage (trace st)"
  by (simp_all add: findHit_def phasingHit_def ordinaryHit_def Let_def log_fields
        isFireAntiMissile_def isKill_def isTakeDamage_def split: option.split)

lemma fireAt_fields:
  "trace (fireAt ext ship p st) = trace st @ [FireAntiMissileCall ship]"
  "shipAt (fireAt ext ship p st)
     = (shipAt st)(ship := fst (snd (FireAntiMissile ext (shipAt st ship) p)))"
  "hasAntiMissile (fireAt ext ship p st) = hasAntiMissile st"
  by (simp_all add: fireAt_def log_fields)

section \<open>Proofs: the collision sets and flotsam collection\<close>

lemma foldl_addToCollisionSets:
  "shipAt st = sA \<Longrightarrow> playerSystem st = pS \<Longrightarrow>
   shipCollisions (foldl addToCollisionSets st xs)
     = shipCollisions st
       @ filter (\<lambda>i. sGetSystem (sA i) = pS \<and> sZoom (sA i) = 1 \<and> sCloaking (sA i) < 1) xs
   \<and> cloakedCollisions (foldl addToCollisionSets st xs)
     = cloakedCollisions st
       @ filter (\<lambda>i. sGetSystem (sA i) = pS \<and> sZoom (sA i) = 1 \<and> \<not> sCloaking (sA i) < 1) xs"
proof (induction xs arbitrary: st)
  case Nil
  then show ?case by simp
next
  case (Cons x xs)
  have a: "shipAt (addToCollisionSets st x) = sA" "playerSystem (addToCollisionSets st x) = pS"
    using Cons.prems by (simp_all add: addToCollisionSets_def)
  show ?case
    using Cons.IH [OF a] Cons.prems by (simp add: addToCollisionSets_def)
qed


lemma FillCollisionSets_cloaked:
  "cloakedCollisions (FillCollisionSets st)
     = filter (\<lambda>i. sGetSystem (shipAt st i) = playerSystem st \<and> sZoom (shipAt st i) = 1
                  \<and> \<not> sCloaking (shipAt st i) < 1) (ships st)"
  using foldl_addToCollisionSets [of "st\<lparr>shipCollisions := [], cloakedCollisions := []\<rparr>"
      "shipAt st" "playerSystem st" "ships st"]
  by (simp add: FillCollisionSets_def)

lemma canCollect_log: "canCollect (log c st) f = canCollect st f"
  by (intro ext) (simp add: canCollect_def log_fields)


lemma DoCollection_none:
  "find (canCollect st f) (Circle ext (shipCollisions st) (fPosition f) 5) = None \<Longrightarrow>
   DoCollection ext st f = (log (DoCollectionCall f) st, f)"
  by (simp add: DoCollection_def Let_def log_fields canCollect_log)




section \<open>Proofs: anti-missile interception\<close>

lemma antiMissile_loop:
  assumes "distinct hs"
      and "\<forall>s\<in>set hs. el s = (Some s = pTarget p \<or> gIsEnemy (government ext g) (sGetGovernment (shipAt st s)))"
      and "\<forall>s\<in>set hs. fr s = fst (FireAntiMissile ext (shipAt st s) p)"
  shows "\<exists>st'. antiMissile ext (Some g) hs st p
            = Inr (st', if (\<exists>s\<in>set (filter el hs). fr s) then ProjectileKill ext p else p)
          \<and> trace st' = trace st @ map FireAntiMissileCall (triedUntilSuccess fr (filter el hs))
                @ (if (\<exists>s\<in>set (filter el hs). fr s) then [KillCall] else [])"
  using assms
proof (induction hs arbitrary: st)
  case Nil
  then show ?case by simp
next
  case (Cons s hs)
  have d: "distinct hs" and notin: "s \<notin> set hs" using Cons.prems(1) by simp_all
  have els: "el s = (Some s = pTarget p \<or> gIsEnemy (government ext g) (sGetGovernment (shipAt st s)))"
    and frs: "fr s = fst (FireAntiMissile ext (shipAt st s) p)"
    using Cons.prems(2,3) by simp_all
  show ?case
  proof (cases "el s")
    case False
    have e: "eligible ext st p (Some g) s = Inr False"
      using False els by (simp add: eligible_def)
    have p2: "\<forall>s\<in>set hs. el s = (Some s = pTarget p \<or> gIsEnemy (government ext g) (sGetGovernment (shipAt st s)))"
      and p3: "\<forall>s\<in>set hs. fr s = fst (FireAntiMissile ext (shipAt st s) p)"
      using Cons.prems(2,3) by simp_all
    from Cons.IH [OF d p2 p3] False e show ?thesis by simp
  next
    case True
    have e: "eligible ext st p (Some g) s = Inr True"
      using True els by (auto simp: eligible_def)
    show ?thesis
    proof (cases "fr s")
      case fires: True
      with True e frs show ?thesis by (simp add: log_fields fireAt_fields)
    next
      case nofire: False
      have p2: "\<forall>r\<in>set hs. el r = (Some r = pTarget p \<or> gIsEnemy (government ext g) (sGetGovernment (shipAt (fireAt ext s p st) r)))"
        using Cons.prems(2) notin by (auto simp: fireAt_fields)
      have p3: "\<forall>r\<in>set hs. fr r = fst (FireAntiMissile ext (shipAt (fireAt ext s p st) r) p)"
        using Cons.prems(3) notin by (auto simp: fireAt_fields)
      from Cons.IH [OF d p2 p3] True e nofire frs show ?thesis
        by (simp add: fireAt_fields)
    qed
  qed
qed

text \<open>
  C4, as the code has it. A projectile with missile strength whose search for a hit
  ends at fraction 1: the anti-missile-ready ships are gone through in the order of
  \<open>hasAntiMissile\<close>, the eligible ones (the locked target, or an enemy of the
  projectile's government) each fire once, up to and including the first whose
  \<open>FireAntiMissile\<close> succeeds, and \<open>Kill()\<close> is called exactly when one succeeds. With
  one eligible ship the projectile is killed if that ship's attempt succeeds, and is
  left as it was if not.
\<close>

theorem anti_missile_interception:
  assumes "\<not> fst (snd (findHit ext (log (DoCollisionsCall p) st) p)) < 1"
      and "pMissileStrength p \<noteq> 0"
      and "distinct (hasAntiMissile st)"
  shows "\<exists>st'. DoCollisions ext st p
            = Inr (st', if (\<exists>ship\<in>set (interceptors ext st p). intercepts ext st p ship)
                        then ProjectileKill ext p else p)
      \<and> filter isFireAntiMissile (trace st')
          = filter isFireAntiMissile (trace st)
            @ map FireAntiMissileCall
                (triedUntilSuccess (intercepts ext st p) (interceptors ext st p))
      \<and> filter isKill (trace st')
          = filter isKill (trace st)
            @ (if (\<exists>ship\<in>set (interceptors ext st p). intercepts ext st p ship)
               then [KillCall] else [])"
proof -
  let ?st0 = "log (DoCollisionsCall p) st"
  let ?st1 = "fst (findHit ext ?st0 p)"
  from assms(1) obtain g where g: "pGetGovernment p = Some g"
    by (cases "pGetGovernment p") (simp_all add: findHit_no_government)
  have el: "\<forall>s\<in>set (hasAntiMissile st).
      (Some s = pTarget p \<or> gIsEnemy (government ext g) (sGetGovernment (shipAt st s)))
      = (Some s = pTarget p \<or> gIsEnemy (government ext g) (sGetGovernment (shipAt ?st1 s)))"
    by (simp add: findHit_fields log_fields)
  have fr: "\<forall>s\<in>set (hasAntiMissile st).
      intercepts ext st p s = fst (FireAntiMissile ext (shipAt ?st1 s) p)"
    by (simp add: intercepts_def findHit_fields log_fields)
  from antiMissile_loop [OF assms(3) el fr] obtain st' where
    r: "antiMissile ext (Some g) (hasAntiMissile st) ?st1 p
          = Inr (st', if (\<exists>s\<in>set (filter (\<lambda>s. Some s = pTarget p
                   \<or> gIsEnemy (government ext g) (sGetGovernment (shipAt st s))) (hasAntiMissile st)).
                 intercepts ext st p s) then ProjectileKill ext p else p)"
    and t: "trace st' = trace ?st1 @ map FireAntiMissileCall (triedUntilSuccess (intercepts ext st p)
               (filter (\<lambda>s. Some s = pTarget p
                   \<or> gIsEnemy (government ext g) (sGetGovernment (shipAt st s))) (hasAntiMissile st)))
           @ (if (\<exists>s\<in>set (filter (\<lambda>s. Some s = pTarget p
                   \<or> gIsEnemy (government ext g) (sGetGovernment (shipAt st s))) (hasAntiMissile st)).
                 intercepts ext st p s) then [KillCall] else [])"
    by blast
  have i: "interceptors ext st p = filter (\<lambda>s. Some s = pTarget p
                   \<or> gIsEnemy (government ext g) (sGetGovernment (shipAt st s))) (hasAntiMissile st)"
    by (simp add: interceptors_def g)
  have dc: "DoCollisions ext st p = antiMissile ext (Some g) (hasAntiMissile st) ?st1 p"
    using assms(1,2) g by (simp add: DoCollisions_def Let_def findHit_fields log_fields)
  have f1: "filter isFireAntiMissile (trace st')
          = filter isFireAntiMissile (trace st)
            @ map FireAntiMissileCall
                (triedUntilSuccess (intercepts ext st p) (interceptors ext st p))"
    by (simp add: t i [symmetric] findHit_later_calls log_fields isFireAntiMissile_def isKill_def o_def)
  have f2: "filter isKill (trace st')
          = filter isKill (trace st)
            @ (if (\<exists>ship\<in>set (interceptors ext st p). intercepts ext st p ship)
               then [KillCall] else [])"
    by (simp add: t i [symmetric] findHit_later_calls log_fields isFireAntiMissile_def isKill_def o_def)
  from r dc f1 f2 show ?thesis by (simp add: i [symmetric])
qed

theorem anti_missile_interception_witness:
  "\<exists>st'. DoCollisions
       (stillWorld\<lparr>government := (\<lambda>g. hostileGovernment),
          FireAntiMissile := (\<lambda>ship p. (sCrew ship = 4, ship, []))\<rparr>)
       (emptyEngine\<lparr>ships := [3, 4, 5], hasAntiMissile := [3, 4, 5],
          shipAt := (\<lambda>i. parkedShip\<lparr>sCrew := int i\<rparr>)\<rparr>)
       (inertProjectile\<lparr>pMissileStrength := 5\<rparr>)
     = Inr (st', inertProjectile\<lparr>pMissileStrength := 5, pShouldBeRemoved := True\<rparr>)
   \<and> filter isFireAntiMissile (trace st') = [FireAntiMissileCall 3, FireAntiMissileCall 4]
   \<and> filter isKill (trace st') = [KillCall]"
  using anti_missile_interception [of
      "stillWorld\<lparr>government := (\<lambda>g. hostileGovernment),
          FireAntiMissile := (\<lambda>ship p. (sCrew ship = 4, ship, []))\<rparr>"
      "inertProjectile\<lparr>pMissileStrength := 5\<rparr>"
      "emptyEngine\<lparr>ships := [3, 4, 5], hasAntiMissile := [3, 4, 5],
          shipAt := (\<lambda>i. parkedShip\<lparr>sCrew := int i\<rparr>)\<rparr>"]
  by (simp add: emptyEngine_def stillWorld_def parkedShip_def inertProjectile_def plainWeapon_def
        hostileGovernment_def findHit_def ordinaryHit_def Let_def log_def interceptors_def
        intercepts_def)

text \<open>
  C4 as the spec words it fails: exactly one eligible anti-missile-ready ship, its
  attempt fails, and the projectile is neither killed nor changed.
\<close>

theorem anti_missile_interception_counterexample:
  "interceptors (stillWorld\<lparr>government := (\<lambda>g. hostileGovernment)\<rparr>)
       (emptyEngine\<lparr>ships := [3], hasAntiMissile := [3]\<rparr>)
       (inertProjectile\<lparr>pMissileStrength := 5\<rparr>) = [3]
   \<and> \<not> isl (DoCollisions (stillWorld\<lparr>government := (\<lambda>g. hostileGovernment)\<rparr>)
            (emptyEngine\<lparr>ships := [3], hasAntiMissile := [3]\<rparr>)
            (inertProjectile\<lparr>pMissileStrength := 5\<rparr>))
   \<and> snd (projr (DoCollisions (stillWorld\<lparr>government := (\<lambda>g. hostileGovernment)\<rparr>)
            (emptyEngine\<lparr>ships := [3], hasAntiMissile := [3]\<rparr>)
            (inertProjectile\<lparr>pMissileStrength := 5\<rparr>)))
       = inertProjectile\<lparr>pMissileStrength := 5\<rparr>
   \<and> trace (fst (projr (DoCollisions (stillWorld\<lparr>government := (\<lambda>g. hostileGovernment)\<rparr>)
            (emptyEngine\<lparr>ships := [3], hasAntiMissile := [3]\<rparr>)
            (inertProjectile\<lparr>pMissileStrength := 5\<rparr>))))
       = [DoCollisionsCall (inertProjectile\<lparr>pMissileStrength := 5\<rparr>), LineCall,
          AsteroidsCollideCall, FireAntiMissileCall 3]"
  by (simp add: emptyEngine_def stillWorld_def parkedShip_def inertProjectile_def plainWeapon_def
        hostileGovernment_def DoCollisions_def findHit_def ordinaryHit_def Let_def log_def
        interceptors_def eligible_def fireAt_def)

section \<open>Proofs: blast damage\<close>

lemma applyDamage_fields:
  "trace (applyDamage ext p b isBlast st) = trace st @ [TakeDamageCall b isBlast]"
  "shipAt (applyDamage ext p b isBlast st)
     = (shipAt st)(b := snd (TakeDamage ext (shipAt st b) p isBlast))"
  "eventQueue (applyDamage ext p b isBlast st)
     = eventQueue st
       @ (if fst (TakeDamage ext (shipAt st b) p isBlast) \<noteq> 0
          then [\<lparr>evActor = ActorGovernment (pGetGovernment p), evTarget = b,
                 evType = fst (TakeDamage ext (shipAt st b) p isBlast)\<rparr>]
          else [])"
  "shipCollisions (applyDamage ext p b isBlast st) = shipCollisions st"
  "cloakedCollisions (applyDamage ext p b isBlast st) = cloakedCollisions st"
  "expired (applyDamage ext p b isBlast st) = expired st"
  "playerSystem (applyDamage ext p b isBlast st) = playerSystem st"
  "hasAntiMissile (applyDamage ext p b isBlast st) = hasAntiMissile st"
  "grudge (applyDamage ext p b isBlast st) = grudge st"
  "grudgeTime (applyDamage ext p b isBlast st) = grudgeTime st"
  by (simp_all add: applyDamage_def Let_def log_fields)

lemma thankPlayer_fields:
  "trace (thankPlayer ext st h) = trace st" "eventQueue (thankPlayer ext st h) = eventQueue st"
  by (simp_all add: thankPlayer_def Let_def split: option.split)

lemma askForHelp_fields:
  "trace (askForHelp ext st h g) = trace st" "eventQueue (askForHelp ext st h g) = eventQueue st"
  by (simp_all add: askForHelp_def Let_def)

lemma DoGrudge_returns:
  "\<exists>st'. DoGrudge ext st h (Some g) = Inr st'
     \<and> trace st' = trace st \<and> eventQueue st' = eventQueue st"
  by (simp add: DoGrudge_def thankPlayer_fields askForHelp_fields)



lemma Circle_distinct: "distinct bodies \<Longrightarrow> distinct (Circle ext bodies c r)"
  by (simp add: Circle_def)





section \<open>Proofs: optional references in collision resolution\<close>

text \<open>
  C9 at the input where the code goes wrong. A ship explosion (a projectile with no
  government) whose weapon has a blast radius and is "safe", and a ship in the blast
  that is not its target: the test of the blast loop reaches
  \<open>projectile.GetGovernment()->IsEnemy(...)\<close> with no government to dereference.
\<close>

theorem safe_blast_without_government:
  "DoCollisions (stillWorld\<lparr>Intersects := (\<lambda>b c r. True)\<rparr>)
     (emptyEngine\<lparr>ships := [3], shipCollisions := [3]\<rparr>)
     (inertProjectile\<lparr>pGetGovernment := None,
        pGetWeapon := plainWeapon\<lparr>BlastRadius := 100, IsSafe := True\<rparr>\<rparr>)
   = Inl NullDereference"
  by (simp add: emptyEngine_def stillWorld_def inertProjectile_def plainWeapon_def
        DoCollisions_def detonate_def damageFrom_def findHit_def Let_def log_def Circle_def)

section \<open>Proofs: what a call of DoCollisions adds to the trace\<close>


lemma blastLoop_calls:
  "blastLoop ext p hit bodies st = Inr st' \<Longrightarrow>
   \<exists>calls. trace st' = trace st @ calls
      \<and> (\<forall>c\<in>set calls. \<exists>b. c = TakeDamageCall b (Some b \<noteq> hit))"
proof (induction bodies arbitrary: st)
  case Nil
  then show ?case by simp
next
  case (Cons body rest)
  let ?st1 = "applyDamage ext p body (Some body \<noteq> hit) st"
  from Cons.prems have "blastLoop ext p hit rest st = Inr st' \<or> blastLoop ext p hit rest ?st1 = Inr st'"
    by (auto split: if_splits option.splits)
  then show ?case
  proof
    assume "blastLoop ext p hit rest st = Inr st'"
    from Cons.IH [OF this] show ?thesis .
  next
    assume "blastLoop ext p hit rest ?st1 = Inr st'"
    from Cons.IH [OF this] obtain calls where
      "trace st' = trace ?st1 @ calls" "\<forall>c\<in>set calls. \<exists>b. c = TakeDamageCall b (Some b \<noteq> hit)"
      by blast
    then have "trace st' = trace st @ (TakeDamageCall body (Some body \<noteq> hit) # calls)
      \<and> (\<forall>c\<in>set (TakeDamageCall body (Some body \<noteq> hit) # calls). \<exists>b. c = TakeDamageCall b (Some b \<noteq> hit))"
      by (simp add: applyDamage_fields)
    then show ?thesis by blast
  qed
qed

lemma antiMissile_calls:
  "antiMissile ext gov hs st p = Inr (st', p') \<Longrightarrow>
   \<exists>calls. trace st' = trace st @ calls \<and> (\<forall>c\<in>set calls. isFireAntiMissile c \<or> isKill c)"
proof (induction hs arbitrary: st)
  case Nil
  then show ?case by simp
next
  case (Cons s hs)
  let ?st1 = "fireAt ext s p st"
  from Cons.prems consider
      (skip) "antiMissile ext gov hs st p = Inr (st', p')"
    | (kill) "st' = log KillCall ?st1"
    | (miss) "antiMissile ext gov hs ?st1 p = Inr (st', p')"
    by (auto split: sum.splits if_splits)
  then show ?case
  proof cases
    case skip
    from Cons.IH [OF this] show ?thesis .
  next
    case kill
    then have "trace st' = trace st @ [FireAntiMissileCall s, KillCall]
        \<and> (\<forall>c\<in>set [FireAntiMissileCall s, KillCall]. isFireAntiMissile c \<or> isKill c)"
      by (simp add: log_fields fireAt_fields isFireAntiMissile_def isKill_def)
    then show ?thesis by blast
  next
    case miss
    from Cons.IH [OF this] obtain calls where
      "trace st' = trace ?st1 @ calls" "\<forall>c\<in>set calls. isFireAntiMissile c \<or> isKill c" by blast
    then have "trace st' = trace st @ (FireAntiMissileCall s # calls)
        \<and> (\<forall>c\<in>set (FireAntiMissileCall s # calls). isFireAntiMissile c \<or> isKill c)"
      by (simp add: fireAt_fields isFireAntiMissile_def)
    then show ?thesis by blast
  qed
qed


lemma DoGrudge_trace: "DoGrudge ext st h gov = Inr st' \<Longrightarrow> trace st' = trace st"
proof (cases gov)
  case None
  assume "DoGrudge ext st h gov = Inr st'"
  with None show ?thesis by (simp add: DoGrudge_def)
next
  case (Some g)
  assume "DoGrudge ext st h gov = Inr st'"
  with Some DoGrudge_returns [of ext st h g] show ?thesis by auto
qed

lemma sum_case_Inr:
  "(case x of Inl e \<Rightarrow> Inl e | Inr a \<Rightarrow> f a) = Inr r \<Longrightarrow> \<exists>a. x = Inr a \<and> f a = Inr r"
  by (cases x) simp_all

lemma afterHit_simps:
  "afterHit hit (ExplodeCall x)" "afterHit hit (BlastCircleCall b)"
  "afterHit hit (FireAntiMissileCall i)" "afterHit hit KillCall"
  "afterHit hit (TakeDamageCall i True)"
  "afterHit hit (TakeDamageCall i False) = (hit = Some i)"
  by (auto simp: afterHit_def isResolution_def)

lemma blastLoop_afterHit:
  assumes "blastLoop ext p hit bodies st = Inr st'"
  shows "\<exists>calls. trace st' = trace st @ calls \<and> (\<forall>c\<in>set calls. afterHit hit c)"
proof -
  from blastLoop_calls [OF assms] obtain calls where
    t: "trace st' = trace st @ calls"
    and g: "\<forall>c\<in>set calls. \<exists>b. c = TakeDamageCall b (Some b \<noteq> hit)" by blast
  have "\<forall>c\<in>set calls. afterHit hit c"
  proof
    fix c assume "c \<in> set calls"
    with g obtain b where "c = TakeDamageCall b (Some b \<noteq> hit)" by blast
    then show "afterHit hit c" by (cases "Some b = hit") (auto simp: afterHit_simps)
  qed
  with t show ?thesis by blast
qed

lemma damageFrom_calls:
  assumes "damageFrom ext p closestHit hit st2 = Inr st4"
  shows "\<exists>calls. trace st4 = trace st2 @ calls \<and> (\<forall>c\<in>set calls. afterHit hit c)"
proof (cases "BlastRadius (pGetWeapon p) \<noteq> 0")
  case True
  let ?hitPos = "addPoint (pPosition p) (scalePoint closestHit (pVelocity p))"
  let ?R = "BlastRadius (pGetWeapon p)"
  from assms True have "(case blastLoop ext p hit (Circle ext (shipCollisions st2) ?hitPos ?R)
                      (log (BlastCircleCall False) st2) of
                 Inl e \<Rightarrow> Inl e
               | Inr st3 \<Rightarrow> blastLoop ext p hit (Circle ext (cloakedCollisions st3) ?hitPos ?R)
                     (log (BlastCircleCall True) st3)) = Inr st4"
    by (simp add: damageFrom_def Let_def)
  from sum_case_Inr [OF this] obtain st3 where
    r3: "blastLoop ext p hit (Circle ext (shipCollisions st2) ?hitPos ?R)
           (log (BlastCircleCall False) st2) = Inr st3"
    and r4: "blastLoop ext p hit (Circle ext (cloakedCollisions st3) ?hitPos ?R)
           (log (BlastCircleCall True) st3) = Inr st4" by blast
  from blastLoop_afterHit [OF r3] obtain c3 where
    t3: "trace st3 = trace (log (BlastCircleCall False) st2) @ c3"
    and g3: "\<forall>c\<in>set c3. afterHit hit c" by blast
  from blastLoop_afterHit [OF r4] obtain c4 where
    t4: "trace st4 = trace (log (BlastCircleCall True) st3) @ c4"
    and g4: "\<forall>c\<in>set c4. afterHit hit c" by blast
  have "trace st4 = trace st2 @ (BlastCircleCall False # c3 @ BlastCircleCall True # c4)"
    by (simp add: t4 t3 log_fields)
  moreover have "\<forall>c\<in>set (BlastCircleCall False # c3 @ BlastCircleCall True # c4). afterHit hit c"
    using g3 g4 by (auto simp: afterHit_simps)
  ultimately show ?thesis by blast
next
  case False
  show ?thesis
  proof (cases hit)
    case None
    with False assms have "st4 = st2" by (simp add: damageFrom_def Let_def)
    then have "trace st4 = trace st2 @ [] \<and> (\<forall>c\<in>set []. afterHit hit c)" by simp
    then show ?thesis by blast
  next
    case (Some h)
    with False assms have "st4 = applyDamage ext p h False st2"
      by (simp add: damageFrom_def Let_def)
    then have "trace st4 = trace st2 @ [TakeDamageCall h False]
        \<and> (\<forall>c\<in>set [TakeDamageCall h False]. afterHit hit c)"
      using Some by (simp add: applyDamage_fields afterHit_simps)
    then show ?thesis by blast
  qed
qed

lemma detonate_calls:
  assumes "detonate ext p0 closestHit hit hitVelocity st1 = Inr (st', p')"
  shows "\<exists>calls. trace st' = trace st1 @ calls \<and> (\<forall>c\<in>set calls. afterHit hit c)"
proof -
  let ?p = "fst (ProjectileExplode ext p0 closestHit hitVelocity)"
  let ?st2 = "log (ExplodeCall closestHit)
                (st1\<lparr>visuals := visuals st1 @ snd (ProjectileExplode ext p0 closestHit hitVelocity)\<rparr>)"
  from assms have "(case damageFrom ext ?p closestHit hit ?st2 of
           Inl e \<Rightarrow> Inl e
         | Inr st4 \<Rightarrow>
             (case hit of
                None \<Rightarrow> Inr (st4, ?p)
              | Some h \<Rightarrow>
                  (case DoGrudge ext st4 h (pGetGovernment ?p) of
                     Inl e \<Rightarrow> Inl e
                   | Inr st5 \<Rightarrow> Inr (st5, ?p)))) = Inr (st', p')"
    by (simp add: detonate_def Let_def)
  from sum_case_Inr [OF this] obtain st4 where
    d: "damageFrom ext ?p closestHit hit ?st2 = Inr st4"
    and rest: "(case hit of
                None \<Rightarrow> Inr (st4, ?p)
              | Some h \<Rightarrow>
                  (case DoGrudge ext st4 h (pGetGovernment ?p) of
                     Inl e \<Rightarrow> Inl e
                   | Inr st5 \<Rightarrow> Inr (st5, ?p))) = Inr (st', p')" by blast
  have same: "trace st' = trace st4"
  proof (cases hit)
    case None
    with rest show ?thesis by simp
  next
    case (Some h)
    with rest have "(case DoGrudge ext st4 h (pGetGovernment ?p) of
                     Inl e \<Rightarrow> Inl e
                   | Inr st5 \<Rightarrow> Inr (st5, ?p)) = Inr (st', p')" by simp
    from sum_case_Inr [OF this] obtain st5 where
      "DoGrudge ext st4 h (pGetGovernment ?p) = Inr st5" "st5 = st'" by auto
    then show ?thesis using DoGrudge_trace by blast
  qed
  from damageFrom_calls [OF d] obtain calls where
    t: "trace st4 = trace ?st2 @ calls" and g: "\<forall>c\<in>set calls. afterHit hit c" by blast
  have "trace st' = trace st1 @ (ExplodeCall closestHit # calls)"
    by (simp add: same t log_fields)
  moreover have "\<forall>c\<in>set (ExplodeCall closestHit # calls). afterHit hit c"
    using g by (simp add: afterHit_simps)
  ultimately show ?thesis by blast
qed

lemma antiMissile_afterHit:
  assumes "antiMissile ext gov hs st p = Inr (st', p')"
  shows "\<exists>calls. trace st' = trace st @ calls \<and> (\<forall>c\<in>set calls. afterHit hit c)"
proof -
  from antiMissile_calls [OF assms] obtain calls where
    t: "trace st' = trace st @ calls"
    and g: "\<forall>c\<in>set calls. isFireAntiMissile c \<or> isKill c" by blast
  have "\<forall>c\<in>set calls. afterHit hit c"
  proof
    fix c assume "c \<in> set calls"
    with g have "isFireAntiMissile c \<or> isKill c" by blast
    then show "afterHit hit c"
      by (cases c) (simp_all add: isFireAntiMissile_def isKill_def afterHit_simps)
  qed
  with t show ?thesis by blast
qed

lemma DoCollisions_calls:
  assumes "DoCollisions ext st p = Inr (st', p')"
  shows "\<exists>calls. trace st' = trace (fst (findHit ext (log (DoCollisionsCall p) st) p)) @ calls
     \<and> (\<forall>c\<in>set calls. afterHit (fst (snd (snd (findHit ext (log (DoCollisionsCall p) st) p)))) c)"
proof -
  let ?found = "findHit ext (log (DoCollisionsCall p) st) p"
  show ?thesis
  proof (cases "fst (snd ?found) < 1")
    case True
    with assms have "detonate ext p (fst (snd ?found)) (fst (snd (snd ?found)))
        (snd (snd (snd ?found))) (fst ?found) = Inr (st', p')"
      by (simp add: DoCollisions_def Let_def)
    from detonate_calls [OF this] show ?thesis .
  next
    case False
    show ?thesis
    proof (cases "pMissileStrength p \<noteq> 0")
      case True
      with False assms have
        "antiMissile ext (pGetGovernment p) (hasAntiMissile (fst ?found)) (fst ?found) p = Inr (st', p')"
        by (simp add: DoCollisions_def Let_def)
      from antiMissile_afterHit [OF this] show ?thesis .
    next
      case nomissile: False
      with False assms have "st' = fst ?found"
        by (auto simp: DoCollisions_def Let_def)
      then have "trace st' = trace (fst ?found) @ []
         \<and> (\<forall>c\<in>set []. afterHit (fst (snd (snd ?found))) c)" by simp
      then show ?thesis by blast
    qed
  qed
qed

section \<open>Proofs: phasing projectiles\<close>



lemma findHit_phasing:
  assumes "IsPhasing (pGetWeapon p)" and "pTarget p \<noteq> None"
  shows "trace (fst (findHit ext st p))
      = trace st @ (case lock st (pTargetShip p) of
                      None \<Rightarrow> []
                    | Some target \<Rightarrow>
                        if pGetGovernment p \<noteq> None
                           \<and> sGetSystem (shipAt st target) = playerSystem st
                           \<and> sZoom (shipAt st target) = 1 \<and> sCloaking (shipAt st target) < 1
                        then [MaskCollideCall target] else [])"
    and "fst (snd (snd (findHit ext st p))) = None
         \<or> fst (snd (snd (findHit ext st p))) = lock st (pTargetShip p)"
  using assms
  by (simp_all add: findHit_def phasingHit_def Let_def log_fields split: option.split)



section \<open>Proofs: the grudge table\<close>











section \<open>Proofs: the step and its staging buffers\<close>

lemma keeps_refl: "keeps st st"
  by (simp add: keeps_def)

lemma keeps_trans: "keeps a b \<Longrightarrow> keeps b c \<Longrightarrow> keeps a c"
  by (auto simp: keeps_def)

lemma keeps_log: "keeps st (log c st)"
  by (simp add: keeps_def log_fields)

lemma keeps_applyDamage: "keeps st (applyDamage ext p b isBlast st)"
  by (simp add: keeps_def applyDamage_def Let_def log_fields)

lemma keeps_fireAt: "keeps st (fireAt ext ship p st)"
  by (simp add: keeps_def fireAt_def log_fields)

lemma keeps_thankPlayer: "keeps st (thankPlayer ext st target)"
  by (simp add: keeps_def thankPlayer_def Let_def split: option.split)

lemma keeps_askForHelp: "keeps st (askForHelp ext st target a)"
  by (simp add: keeps_def askForHelp_def Let_def)

lemma keeps_DoGrudge: "DoGrudge ext st h gov = Inr st' \<Longrightarrow> keeps st st'"
  by (cases gov)
     (auto simp: DoGrudge_def keeps_thankPlayer keeps_askForHelp keeps_refl split: if_splits)

lemma keeps_findHit: "keeps st (fst (findHit ext st p))"
  by (simp add: keeps_def findHit_def phasingHit_def ordinaryHit_def Let_def log_fields
        split: option.split)

lemma keeps_blastLoop: "blastLoop ext p hit bodies st = Inr st' \<Longrightarrow> keeps st st'"
proof (induction bodies arbitrary: st)
  case Nil
  then show ?case by (simp add: keeps_refl)
next
  case (Cons body rest)
  let ?st1 = "applyDamage ext p body (Some body \<noteq> hit) st"
  from Cons.prems have "blastLoop ext p hit rest st = Inr st' \<or> blastLoop ext p hit rest ?st1 = Inr st'"
    by (auto split: if_splits option.splits)
  then show ?case
  proof
    assume "blastLoop ext p hit rest st = Inr st'"
    from Cons.IH [OF this] show ?thesis .
  next
    assume "blastLoop ext p hit rest ?st1 = Inr st'"
    from Cons.IH [OF this] keeps_applyDamage [of st ext p body "Some body \<noteq> hit"]
    show ?thesis by (blast intro: keeps_trans)
  qed
qed

lemma keeps_antiMissile: "antiMissile ext gov hs st p = Inr (st', p') \<Longrightarrow> keeps st st'"
proof (induction hs arbitrary: st)
  case Nil
  then show ?case by (simp add: keeps_refl)
next
  case (Cons s hs)
  let ?st1 = "fireAt ext s p st"
  from Cons.prems consider
      (skip) "antiMissile ext gov hs st p = Inr (st', p')"
    | (kill) "st' = log KillCall ?st1"
    | (miss) "antiMissile ext gov hs ?st1 p = Inr (st', p')"
    by (auto split: sum.splits if_splits)
  then show ?case
  proof cases
    case skip
    from Cons.IH [OF this] show ?thesis .
  next
    case kill
    with keeps_fireAt [of st ext s p] keeps_log [of ?st1 KillCall] show ?thesis
      by (blast intro: keeps_trans)
  next
    case miss
    from Cons.IH [OF this] keeps_fireAt [of st ext s p] show ?thesis
      by (blast intro: keeps_trans)
  qed
qed

lemma keeps_damageFrom: "damageFrom ext p closestHit hit st2 = Inr st4 \<Longrightarrow> keeps st2 st4"
proof (cases "BlastRadius (pGetWeapon p) \<noteq> 0")
  case True
  assume a: "damageFrom ext p closestHit hit st2 = Inr st4"
  let ?hitPos = "addPoint (pPosition p) (scalePoint closestHit (pVelocity p))"
  let ?R = "BlastRadius (pGetWeapon p)"
  from a True have "(case blastLoop ext p hit (Circle ext (shipCollisions st2) ?hitPos ?R)
                      (log (BlastCircleCall False) st2) of
                 Inl e \<Rightarrow> Inl e
               | Inr st3 \<Rightarrow> blastLoop ext p hit (Circle ext (cloakedCollisions st3) ?hitPos ?R)
                     (log (BlastCircleCall True) st3)) = Inr st4"
    by (simp add: damageFrom_def Let_def)
  from sum_case_Inr [OF this] obtain st3 where
    r3: "blastLoop ext p hit (Circle ext (shipCollisions st2) ?hitPos ?R)
           (log (BlastCircleCall False) st2) = Inr st3"
    and r4: "blastLoop ext p hit (Circle ext (cloakedCollisions st3) ?hitPos ?R)
           (log (BlastCircleCall True) st3) = Inr st4" by blast
  from keeps_blastLoop [OF r3] keeps_blastLoop [OF r4]
    keeps_log [of st2 "BlastCircleCall False"] keeps_log [of st3 "BlastCircleCall True"]
  show ?thesis by (blast intro: keeps_trans)
next
  case False
  assume a: "damageFrom ext p closestHit hit st2 = Inr st4"
  show ?thesis
  proof (cases hit)
    case None
    with False a have "st4 = st2" by (simp add: damageFrom_def Let_def)
    then show ?thesis by (simp add: keeps_refl)
  next
    case (Some h)
    with False a have "st4 = applyDamage ext p h False st2"
      by (simp add: damageFrom_def Let_def)
    then show ?thesis by (simp add: keeps_applyDamage)
  qed
qed

lemma keeps_explode: "keeps st (log c (st\<lparr>visuals := visuals st @ vs\<rparr>))"
  by (simp add: keeps_def log_fields)

lemma keeps_detonate:
  assumes "detonate ext p0 closestHit hit hitVelocity st1 = Inr (st', p')"
  shows "keeps st1 st'"
proof -
  let ?p = "fst (ProjectileExplode ext p0 closestHit hitVelocity)"
  let ?st2 = "log (ExplodeCall closestHit)
                (st1\<lparr>visuals := visuals st1 @ snd (ProjectileExplode ext p0 closestHit hitVelocity)\<rparr>)"
  from assms have "(case damageFrom ext ?p closestHit hit ?st2 of
           Inl e \<Rightarrow> Inl e
         | Inr st4 \<Rightarrow>
             (case hit of
                None \<Rightarrow> Inr (st4, ?p)
              | Some h \<Rightarrow>
                  (case DoGrudge ext st4 h (pGetGovernment ?p) of
                     Inl e \<Rightarrow> Inl e
                   | Inr st5 \<Rightarrow> Inr (st5, ?p)))) = Inr (st', p')"
    by (simp add: detonate_def Let_def)
  from sum_case_Inr [OF this] obtain st4 where
    d: "damageFrom ext ?p closestHit hit ?st2 = Inr st4"
    and rest: "(case hit of
                None \<Rightarrow> Inr (st4, ?p)
              | Some h \<Rightarrow>
                  (case DoGrudge ext st4 h (pGetGovernment ?p) of
                     Inl e \<Rightarrow> Inl e
                   | Inr st5 \<Rightarrow> Inr (st5, ?p))) = Inr (st', p')" by blast
  have k4: "keeps st4 st'"
  proof (cases hit)
    case None
    with rest show ?thesis by (simp add: keeps_refl)
  next
    case (Some h)
    with rest have "(case DoGrudge ext st4 h (pGetGovernment ?p) of
                     Inl e \<Rightarrow> Inl e
                   | Inr st5 \<Rightarrow> Inr (st5, ?p)) = Inr (st', p')" by simp
    from sum_case_Inr [OF this] obtain st5 where
      "DoGrudge ext st4 h (pGetGovernment ?p) = Inr st5" "st5 = st'" by auto
    then show ?thesis using keeps_DoGrudge by blast
  qed
  from keeps_explode [of st1 "ExplodeCall closestHit"] keeps_damageFrom [OF d] k4
  show ?thesis by (blast intro: keeps_trans)
qed

lemma keeps_DoCollisions:
  assumes "DoCollisions ext st p = Inr (st', p')"
  shows "keeps st st'"
proof -
  let ?found = "findHit ext (log (DoCollisionsCall p) st) p"
  have k1: "keeps st (fst ?found)"
    using keeps_log [of st "DoCollisionsCall p"] keeps_findHit [of "log (DoCollisionsCall p) st" ext p]
    by (blast intro: keeps_trans)
  have "keeps (fst ?found) st'"
  proof (cases "fst (snd ?found) < 1")
    case True
    with assms have "detonate ext p (fst (snd ?found)) (fst (snd (snd ?found)))
        (snd (snd (snd ?found))) (fst ?found) = Inr (st', p')"
      by (simp add: DoCollisions_def Let_def)
    from keeps_detonate [OF this] show ?thesis .
  next
    case False
    show ?thesis
    proof (cases "pMissileStrength p \<noteq> 0")
      case True
      with False assms have
        "antiMissile ext (pGetGovernment p) (hasAntiMissile (fst ?found)) (fst ?found) p = Inr (st', p')"
        by (simp add: DoCollisions_def Let_def)
      from keeps_antiMissile [OF this] show ?thesis .
    next
      case nomissile: False
      with False assms have "st' = fst ?found"
        by (auto simp: DoCollisions_def Let_def)
      then show ?thesis by (simp add: keeps_refl)
    qed
  qed
  with k1 show ?thesis by (blast intro: keeps_trans)
qed

lemma isInner_others:
  "isInner c \<Longrightarrow> \<not> isMove c \<and> \<not> isDoCollisions c \<and> \<not> isDoCollection c"
  by (cases c)
     (simp_all add: isInner_def isIndexQuery_def isMaskCollide_def isResolution_def isMove_def
        isDoCollisions_def isDoCollection_def)

lemma isPickup_others:
  "isPickup c \<Longrightarrow> \<not> isMove c \<and> \<not> isDoCollisions c \<and> \<not> isDoCollection c"
  by (cases c)
     (simp_all add: isPickup_def isMove_def isDoCollisions_def isDoCollection_def)

lemma afterHit_isInner: "afterHit hit c \<Longrightarrow> isInner c"
  by (simp add: afterHit_def isInner_def)

lemma findHit_queries:
  "\<exists>qs. trace (fst (findHit ext st p)) = trace st @ qs \<and> (\<forall>c\<in>set qs. isInner c)"
proof (cases "pGetGovernment p")
  case None
  then have "trace (fst (findHit ext st p)) = trace st @ [] \<and> (\<forall>c\<in>set []. isInner c)"
    by (simp add: findHit_no_government)
  then show ?thesis by blast
next
  case (Some gov)
  show ?thesis
  proof (cases "IsPhasing (pGetWeapon p) \<and> pTarget p \<noteq> None")
    case True
    then have t: "trace (fst (findHit ext st p))
      = trace st @ (case lock st (pTargetShip p) of
                      None \<Rightarrow> []
                    | Some target \<Rightarrow>
                        if pGetGovernment p \<noteq> None
                           \<and> sGetSystem (shipAt st target) = playerSystem st
                           \<and> sZoom (shipAt st target) = 1 \<and> sCloaking (shipAt st target) < 1
                        then [MaskCollideCall target] else [])"
      using findHit_phasing(1) by blast
    have "\<forall>c\<in>set (case lock st (pTargetShip p) of
                      None \<Rightarrow> []
                    | Some target \<Rightarrow>
                        if pGetGovernment p \<noteq> None
                           \<and> sGetSystem (shipAt st target) = playerSystem st
                           \<and> sZoom (shipAt st target) = 1 \<and> sCloaking (shipAt st target) < 1
                        then [MaskCollideCall target] else []). isInner c"
      by (auto simp: isInner_def isMaskCollide_def split: option.splits if_splits)
    with t show ?thesis by blast
  next
    case False
    let ?qs = "(if TriggerRadius (pGetWeapon p) \<noteq> 0 then [TriggerCircleCall] else [])
        @ (if (if TriggerRadius (pGetWeapon p) \<noteq> 0
                  \<and> triggered ext st p gov (TriggerRadius (pGetWeapon p)) then 0 else (1::real)) > 0
           then [LineCall] else [])
        @ (if \<not> IsPhasing (pGetWeapon p) then [AsteroidsCollideCall] else [])"
    have "trace (fst (findHit ext st p)) = trace st @ ?qs"
      using False Some by (simp add: findHit_def ordinaryHit_def Let_def log_fields)
    moreover have "\<forall>c\<in>set ?qs. isInner c"
      by (auto simp: isInner_def isIndexQuery_def split: if_splits)
    ultimately show ?thesis by blast
  qed
qed

lemma DoCollisions_inner:
  assumes "DoCollisions ext st p = Inr (st', p')"
  shows "\<exists>inner. trace st' = trace st @ DoCollisionsCall p # inner \<and> (\<forall>c\<in>set inner. isInner c)"
proof -
  let ?st0 = "log (DoCollisionsCall p) st"
  from DoCollisions_calls [OF assms] obtain calls where
    t: "trace st' = trace (fst (findHit ext ?st0 p)) @ calls"
    and g: "\<forall>c\<in>set calls. afterHit (fst (snd (snd (findHit ext ?st0 p)))) c" by blast
  from findHit_queries [of ext ?st0 p] obtain qs where
    q: "trace (fst (findHit ext ?st0 p)) = trace ?st0 @ qs" and gq: "\<forall>c\<in>set qs. isInner c"
    by blast
  have "trace st' = trace st @ DoCollisionsCall p # (qs @ calls)"
    by (simp add: t q log_fields)
  moreover have "\<forall>c\<in>set (qs @ calls). isInner c"
    using g gq afterHit_isInner by auto
  ultimately show ?thesis by blast
qed

lemma collideAll_spec:
  "collideAll ext ps st = Inr (st', ps') \<Longrightarrow>
   keeps st st' \<and> length ps' = length ps
   \<and> (\<exists>calls. trace st' = trace st @ calls
         \<and> filter isDoCollisions calls = map DoCollisionsCall ps
         \<and> filter isMove calls = [] \<and> filter isDoCollection calls = [])"
proof (induction ps arbitrary: st st' ps')
  case Nil
  then have "st' = st" "ps' = []" by simp_all
  then have "keeps st st' \<and> length ps' = length [] \<and> trace st' = trace st @ []
      \<and> filter isDoCollisions [] = map DoCollisionsCall []
      \<and> filter isMove [] = [] \<and> filter isDoCollection [] = []"
    by (simp add: keeps_refl)
  then show ?case by blast
next
  case (Cons p rest)
  from Cons.prems obtain st1 p1 rs where
    r1: "DoCollisions ext st p = Inr (st1, p1)"
    and r2: "collideAll ext rest st1 = Inr (st', rs)"
    and ps': "ps' = p1 # rs"
    by (auto split: sum.splits)
  from DoCollisions_inner [OF r1] obtain inner where
    t1: "trace st1 = trace st @ DoCollisionsCall p # inner" and g1: "\<forall>c\<in>set inner. isInner c"
    by blast
  from Cons.IH [OF r2] obtain calls where
    k2: "keeps st1 st'" and l2: "length rs = length rest"
    and t2: "trace st' = trace st1 @ calls"
    and f2: "filter isDoCollisions calls = map DoCollisionsCall rest"
      "filter isMove calls = []" "filter isDoCollection calls = []"
    by blast
  have none: "filter isDoCollisions inner = []" "filter isMove inner = []"
      "filter isDoCollection inner = []"
    using g1 isInner_others by (auto simp: filter_empty_conv)
  have k: "keeps st st'"
    using keeps_DoCollisions [OF r1] k2 by (blast intro: keeps_trans)
  have "trace st' = trace st @ (DoCollisionsCall p # inner @ calls)
      \<and> filter isDoCollisions (DoCollisionsCall p # inner @ calls) = map DoCollisionsCall (p # rest)
      \<and> filter isMove (DoCollisionsCall p # inner @ calls) = []
      \<and> filter isDoCollection (DoCollisionsCall p # inner @ calls) = []"
    by (simp add: t2 t1 f2 none isDoCollisions_def isMove_def isDoCollection_def)
  with k l2 ps' show ?case by auto
qed

lemma DoCollection_spec:
  "keeps st (fst (DoCollection ext st f))
   \<and> (\<exists>picks. trace (fst (DoCollection ext st f)) = trace st @ DoCollectionCall f # picks
         \<and> (\<forall>c\<in>set picks. isPickup c))"
proof (cases "find (canCollect st f) (Circle ext (shipCollisions st) (fPosition f) 5)")
  case None
  then have "DoCollection ext st f = (log (DoCollectionCall f) st, f)"
    by (rule DoCollection_none)
  then have "keeps st (fst (DoCollection ext st f))
      \<and> trace (fst (DoCollection ext st f)) = trace st @ DoCollectionCall f # []
      \<and> (\<forall>c\<in>set []. isPickup c)"
    by (simp add: keeps_log log_fields)
  then show ?thesis by blast
next
  case (Some collector)
  let ?h = "(case fOutfitType (fst (snd (TransferTo ext f (shipAt st collector)))) of
              Some outfit \<Rightarrow> if oInstallable outfit < 0 \<and> sIsYours (snd (snd (TransferTo ext f (shipAt st collector))))
                             then [HarvestCall outfit] else []
            | None \<Rightarrow> [])"
  have k: "keeps st (fst (DoCollection ext st f))"
    using Some
    by (simp add: DoCollection_def Let_def log_fields canCollect_log keeps_def
          split: option.split)
  have t: "trace (fst (DoCollection ext st f))
      = trace st @ DoCollectionCall f # (TransferToCall collector # ?h)"
    using Some
    by (simp add: DoCollection_def Let_def log_fields canCollect_log split: option.split)
  have "\<forall>c\<in>set (TransferToCall collector # ?h). isPickup c"
    by (auto simp: isPickup_def split: option.splits if_splits)
  with k t show ?thesis by blast
qed

lemma collectAll_spec:
  "keeps st (fst (collectAll ext fs st)) \<and> length (snd (collectAll ext fs st)) = length fs
   \<and> (\<exists>calls. trace (fst (collectAll ext fs st)) = trace st @ calls
         \<and> filter isDoCollection calls = map DoCollectionCall fs
         \<and> filter isMove calls = [] \<and> filter isDoCollisions calls = [])"
proof (induction fs arbitrary: st)
  case Nil
  have "keeps st st \<and> trace st = trace st @ []
      \<and> filter isDoCollection [] = map DoCollectionCall []
      \<and> filter isMove [] = [] \<and> filter isDoCollisions [] = []"
    by (simp add: keeps_refl)
  then show ?case by auto
next
  case (Cons f rest)
  let ?st1 = "fst (DoCollection ext st f)"
  from DoCollection_spec [of st ext f] obtain picks where
    k1: "keeps st ?st1" and t1: "trace ?st1 = trace st @ DoCollectionCall f # picks"
    and g1: "\<forall>c\<in>set picks. isPickup c" by blast
  from Cons.IH [of ?st1] obtain calls where
    k2: "keeps ?st1 (fst (collectAll ext rest ?st1))"
    and l2: "length (snd (collectAll ext rest ?st1)) = length rest"
    and t2: "trace (fst (collectAll ext rest ?st1)) = trace ?st1 @ calls"
    and f2: "filter isDoCollection calls = map DoCollectionCall rest"
      "filter isMove calls = []" "filter isDoCollisions calls = []"
    by blast
  have none: "filter isDoCollisions picks = []" "filter isMove picks = []"
      "filter isDoCollection picks = []"
    using g1 isPickup_others by (auto simp: filter_empty_conv)
  have e: "fst (collectAll ext (f # rest) st) = fst (collectAll ext rest ?st1)"
      "snd (collectAll ext (f # rest) st) = snd (DoCollection ext st f) # snd (collectAll ext rest ?st1)"
    by (simp_all add: Let_def)
  have "trace (fst (collectAll ext (f # rest) st)) = trace st @ (DoCollectionCall f # picks @ calls)
      \<and> filter isDoCollection (DoCollectionCall f # picks @ calls) = map DoCollectionCall (f # rest)
      \<and> filter isMove (DoCollectionCall f # picks @ calls) = []
      \<and> filter isDoCollisions (DoCollectionCall f # picks @ calls) = []"
    by (simp add: Let_def t2 t1 f2 none isDoCollisions_def isMove_def isDoCollection_def)
  moreover have "keeps st (fst (collectAll ext (f # rest) st))"
    using k1 k2 e by (auto intro: keeps_trans)
  moreover have "length (snd (collectAll ext (f # rest) st)) = length (f # rest)"
    using l2 e by simp
  ultimately show ?case by blast
qed

lemma isHandling_simps:
  "isHandling (ShipMoveCall i)" "isHandling (FlotsamMoveCall f)"
  "isHandling (ProjectileMoveCall p)" "isHandling (VisualMoveCall v)"
  "isHandling (DoCollisionsCall p)" "isHandling (DoCollectionCall f)"
  "\<not> isHandling (PlayCall s)" "\<not> isHandling (FleetEnterCall n)"
  by (simp_all add: isHandling_def isMove_def isDoCollisions_def isDoCollection_def)

lemma filter_isHandling_collisions:
  "filter isMove cs = [] \<Longrightarrow> filter isDoCollection cs = [] \<Longrightarrow>
   filter isHandling cs = filter isDoCollisions cs"
  by (rule filter_cong) (auto simp: filter_empty_conv isHandling_def)

lemma filter_isHandling_collection:
  "filter isMove cs = [] \<Longrightarrow> filter isDoCollisions cs = [] \<Longrightarrow>
   filter isHandling cs = filter isDoCollection cs"
  by (rule filter_cong) (auto simp: filter_empty_conv isHandling_def)

lemma untouched_refl: "untouched st st"
  by (simp add: untouched_def)

lemma untouched_trans: "untouched a b \<Longrightarrow> untouched b c \<Longrightarrow> untouched a c"
  by (simp add: untouched_def)

lemma hyperspaceSounds_spec:
  "untouched st (hyperspaceSounds fl j h w st i)
   \<and> filter isHandling (trace (hyperspaceSounds fl j h w st i)) = filter isHandling (trace st)"
  by (simp add: hyperspaceSounds_def Let_def log_fields untouched_def isHandling_simps)

lemma boardShip_spec:
  "untouched st (boardShip ext st i) \<and> trace (boardShip ext st i) = trace st"
  by (simp add: boardShip_def Let_def untouched_def split: option.split)

lemma launchAndFire_spec:
  "untouched st (launchAndFire ext st i) \<and> trace (launchAndFire ext st i) = trace st"
  by (simp add: launchAndFire_def Let_def untouched_def)

lemma MoveShip_spec:
  "untouched st (MoveShip ext st i)
   \<and> filter isHandling (trace (MoveShip ext st i)) = filter isHandling (trace st) @ [ShipMoveCall i]"
proof -
  let ?st1 = "log (ShipMoveCall i)
                  (st\<lparr>shipAt := fst (ShipMove ext (shipAt st) i),
                       newVisuals := newVisuals st @ fst (snd (ShipMove ext (shipAt st) i)),
                       newFlotsam := newFlotsam st @ snd (snd (ShipMove ext (shipAt st) i))\<rparr>)"
  have u1: "untouched st ?st1"
    by (simp add: untouched_def log_fields)
  have t1: "filter isHandling (trace ?st1) = filter isHandling (trace st) @ [ShipMoveCall i]"
    by (simp add: log_fields isHandling_simps)
  have later: "untouched ?st1 (launchAndFire ext (boardShip ext (hyperspaceSounds fl j h w ?st1 i) i) i)
      \<and> filter isHandling (trace (launchAndFire ext (boardShip ext (hyperspaceSounds fl j h w ?st1 i) i) i))
          = filter isHandling (trace ?st1)" for fl j h w
    using hyperspaceSounds_spec [of ?st1 fl j h w i]
      boardShip_spec [of "hyperspaceSounds fl j h w ?st1 i" ext i]
      launchAndFire_spec [of "boardShip ext (hyperspaceSounds fl j h w ?st1 i) i" ext i]
    by (simp add: untouched_def)
  show ?thesis
  proof (cases "sShouldBeRemoved (shipAt ?st1 i)")
    case True
    then have "MoveShip ext st i = ?st1\<lparr>eventQueue := eventQueue ?st1
        @ [\<lparr>evActor = ActorGovernment None, evTarget = i, evType = DESTROY ext\<rparr>]\<rparr>"
      by (simp add: MoveShip_def Let_def)
    with u1 t1 show ?thesis by (simp add: untouched_def)
  next
    case False
    then obtain fl j h w where
      "MoveShip ext st i = launchAndFire ext (boardShip ext (hyperspaceSounds fl j h w ?st1 i) i) i"
      by (simp add: MoveShip_def Let_def)
    with later [of fl j h w] u1 t1 show ?thesis by (simp add: untouched_def)
  qed
qed

lemma foldl_MoveShip:
  "untouched st (foldl (MoveShip ext) st xs)
   \<and> filter isHandling (trace (foldl (MoveShip ext) st xs))
       = filter isHandling (trace st) @ map ShipMoveCall xs"
proof (induction xs arbitrary: st)
  case Nil
  show ?case by (simp add: untouched_refl)
next
  case (Cons x xs)
  from Cons.IH [of "MoveShip ext st x"] MoveShip_spec [of st ext x] show ?case
    by (auto intro: untouched_trans)
qed

lemma moveFlotsam_spec:
  "untouched st (fst (moveFlotsam ext fs st))
   \<and> filter isHandling (trace (fst (moveFlotsam ext fs st)))
       = filter isHandling (trace st) @ map FlotsamMoveCall fs"
proof (induction fs arbitrary: st)
  case Nil
  show ?case by (simp add: untouched_refl)
next
  case (Cons f rest)
  let ?s = "log (FlotsamMoveCall f) (st\<lparr>newVisuals := newVisuals st @ snd (FlotsamMove ext f)\<rparr>)"
  have "untouched st ?s" by (simp add: untouched_def log_fields)
  moreover have "filter isHandling (trace ?s) = filter isHandling (trace st) @ [FlotsamMoveCall f]"
    by (simp add: log_fields isHandling_simps)
  ultimately show ?case
    using Cons.IH [of ?s] by (auto simp: Let_def intro: untouched_trans)
qed

lemma moveProjectiles_spec:
  "untouched st (fst (moveProjectiles ext ps st))
   \<and> filter isHandling (trace (fst (moveProjectiles ext ps st)))
       = filter isHandling (trace st) @ map ProjectileMoveCall ps"
proof (induction ps arbitrary: st)
  case Nil
  show ?case by (simp add: untouched_refl)
next
  case (Cons p rest)
  let ?s = "log (ProjectileMoveCall p)
              (st\<lparr>newVisuals := newVisuals st @ fst (snd (ProjectileMove ext p)),
                  newProjectiles := newProjectiles st @ snd (snd (ProjectileMove ext p))\<rparr>)"
  have "untouched st ?s" by (simp add: untouched_def log_fields)
  moreover have "filter isHandling (trace ?s) = filter isHandling (trace st) @ [ProjectileMoveCall p]"
    by (simp add: log_fields isHandling_simps)
  ultimately show ?case
    using Cons.IH [of ?s] by (auto simp: Let_def intro: untouched_trans)
qed

lemma moveVisuals_spec:
  "untouched st (fst (moveVisuals ext vs st))
   \<and> filter isHandling (trace (fst (moveVisuals ext vs st)))
       = filter isHandling (trace st) @ map VisualMoveCall vs"
proof (induction vs arbitrary: st)
  case Nil
  show ?case by (simp add: untouched_refl)
next
  case (Cons v rest)
  let ?s = "log (VisualMoveCall v) st"
  have "untouched st ?s" by (simp add: untouched_def log_fields)
  moreover have "filter isHandling (trace ?s) = filter isHandling (trace st) @ [VisualMoveCall v]"
    by (simp add: log_fields isHandling_simps)
  ultimately show ?case
    using Cons.IH [of ?s] by (auto simp: Let_def intro: untouched_trans)
qed

lemma moveShips_spec:
  "drawList (moveShips ext st) = drawList st
   \<and> (flotsam (moveShips ext st) = flotsam st \<or> flotsam (moveShips ext st) = [])
   \<and> (projectiles (moveShips ext st) = projectiles st \<or> projectiles (moveShips ext st) = [])
   \<and> (visuals (moveShips ext st) = visuals st \<or> visuals (moveShips ext st) = [])
   \<and> filter isHandling (trace (moveShips ext st))
       = filter isHandling (trace st) @ map ShipMoveCall (ships st)"
proof -
  let ?st2 = "st\<lparr>shipAt := fst (DeployDefense ext (st\<lparr>shipAt := AIStep ext st\<rparr>)),
                newShips := newShips st @ snd (DeployDefense ext (st\<lparr>shipAt := AIStep ext st\<rparr>))\<rparr>"
  let ?st3 = "foldl (MoveShip ext) ?st2 (ships st)"
  have f3: "drawList ?st3 = drawList st" "flotsam ?st3 = flotsam st"
      "projectiles ?st3 = projectiles st" "visuals ?st3 = visuals st"
      "filter isHandling (trace ?st3) = filter isHandling (trace st) @ map ShipMoveCall (ships st)"
    using foldl_MoveShip [of ?st2 ext "ships st"] by (simp_all add: untouched_def)
  show ?thesis
    by (simp add: moveShips_def Let_def EnterSystem_def log_fields f3 isHandling_simps
          split: option.split)
qed

lemma moveOthers_spec:
  "drawList (moveOthers ext st) = drawList st
   \<and> filter isHandling (trace (moveOthers ext st))
       = filter isHandling (trace st) @ map FlotsamMoveCall (flotsam st)
         @ map ProjectileMoveCall (projectiles st) @ map VisualMoveCall (visuals st)"
proof -
  let ?st7 = "st\<lparr>newVisuals := newVisuals st @ fst (AsteroidsStep ext st),
                newFlotsam := newFlotsam st @ snd (AsteroidsStep ext st)\<rparr>"
  let ?fl = "moveFlotsam ext (flotsam st) ?st7"
  let ?st8 = "(fst ?fl)\<lparr>flotsam := PruneList fShouldBeRemoved (snd ?fl)\<rparr>"
  let ?pr = "moveProjectiles ext (projectiles st) ?st8"
  let ?st9 = "(fst ?pr)\<lparr>projectiles := PruneVector pShouldBeRemoved (snd ?pr)\<rparr>"
  let ?vi = "moveVisuals ext (visuals st) ?st9"
  have a: "untouched st (fst ?fl)"
    "filter isHandling (trace (fst ?fl)) = filter isHandling (trace st) @ map FlotsamMoveCall (flotsam st)"
    using moveFlotsam_spec [of ?st7 ext "flotsam st"] by (simp_all add: untouched_def)
  have b: "untouched ?st8 (fst ?pr)"
    "filter isHandling (trace (fst ?pr)) = filter isHandling (trace ?st8) @ map ProjectileMoveCall (projectiles st)"
    using moveProjectiles_spec [of ?st8 ext "projectiles st"] by simp_all
  have c: "untouched ?st9 (fst ?vi)"
    "filter isHandling (trace (fst ?vi)) = filter isHandling (trace ?st9) @ map VisualMoveCall (visuals st)"
    using moveVisuals_spec [of ?st9 ext "visuals st"] by simp_all
  have p8: "projectiles ?st8 = projectiles st" using a by (simp add: untouched_def)
  have v9: "visuals ?st9 = visuals st" using a b by (simp add: untouched_def)
  have e: "moveOthers ext st = (fst ?vi)\<lparr>visuals := PruneVector vShouldBeRemoved (snd ?vi)\<rparr>"
    using p8 v9 by (simp add: moveOthers_def Let_def)
  have "drawList (fst ?vi) = drawList st"
    using a b c by (simp add: untouched_def)
  moreover have "trace (fst ?vi) = trace (fst ?vi)" by simp
  moreover have "filter isHandling (trace (fst ?vi))
      = filter isHandling (trace st) @ map FlotsamMoveCall (flotsam st)
         @ map ProjectileMoveCall (projectiles st) @ map VisualMoveCall (visuals st)"
    using a(2) b(2) c(2) by simp
  ultimately show ?thesis by (simp add: e)
qed

lemma SpawnFleet_spec:
  "untouched st (SpawnFleet ext st f)
   \<and> filter isHandling (trace (SpawnFleet ext st f)) = filter isHandling (trace st)"
  by (simp add: SpawnFleet_def Let_def untouched_def isHandling_simps split: option.split)

lemma foldl_SpawnFleet:
  "untouched st (foldl (SpawnFleet ext) st fs)
   \<and> filter isHandling (trace (foldl (SpawnFleet ext) st fs)) = filter isHandling (trace st)"
proof (induction fs arbitrary: st)
  case Nil
  show ?case by (simp add: untouched_refl)
next
  case (Cons f fs)
  from Cons.IH [of "SpawnFleet ext st f"] SpawnFleet_spec [of st ext f] show ?case
    by (auto intro: untouched_trans)
qed

lemma SpawnFleets_spec:
  "SpawnFleets ext st = Inr st' \<Longrightarrow>
   untouched st st' \<and> filter isHandling (trace st') = filter isHandling (trace st)"
  using foldl_SpawnFleet [of st ext]
  by (auto simp: SpawnFleets_def split: option.splits)

lemma SpawnPersons_spec:
  "SpawnPersons ext st = Inr st' \<Longrightarrow> untouched st st' \<and> trace st' = trace st"
  by (auto simp: SpawnPersons_def Let_def untouched_def split: if_splits option.splits)

lemma SendHails_spec:
  "SendHails ext st = Inr st' \<Longrightarrow> untouched st st' \<and> trace st' = trace st"
  by (auto simp: SendHails_def Let_def untouched_def split: if_splits)

lemma movePass_spec:
  assumes "movePass ext st = Inr m"
  shows "drawList m = drawList st
     \<and> (\<exists>F P V. (F = flotsam st \<or> F = []) \<and> (P = projectiles st \<or> P = [])
           \<and> (V = visuals st \<or> V = [])
           \<and> filter isHandling (trace m)
               = filter isHandling (trace st) @ map ShipMoveCall (ships st)
                 @ map FlotsamMoveCall F @ map ProjectileMoveCall P @ map VisualMoveCall V)"
proof -
  let ?s6 = "moveShips ext st"
  let ?s10 = "moveOthers ext ?s6"
  from assms obtain st11 st12 st13 where
    r11: "SpawnFleets ext ?s10 = Inr st11" and r12: "SpawnPersons ext st11 = Inr st12"
    and r13: "SendHails ext st12 = Inr st13"
    and m: "m = st13\<lparr>shipAt := fst (MouseClickEffects ext st13),
                      messages := messages st13 @ snd (MouseClickEffects ext st13)\<rparr>"
    by (auto simp: movePass_def split: sum.splits)
  note a = moveShips_spec [of ext st]
  note b = moveOthers_spec [of ext ?s6]
  note c = SpawnFleets_spec [OF r11]
  note d = SpawnPersons_spec [OF r12]
  note e = SendHails_spec [OF r13]
  have dl: "drawList m = drawList st"
    using a b c d e m by (simp add: untouched_def)
  have t: "filter isHandling (trace m)
      = filter isHandling (trace st) @ map ShipMoveCall (ships st)
        @ map FlotsamMoveCall (flotsam ?s6) @ map ProjectileMoveCall (projectiles ?s6)
        @ map VisualMoveCall (visuals ?s6)"
    using a b c d e m by simp
  from a have "(flotsam ?s6 = flotsam st \<or> flotsam ?s6 = [])
      \<and> (projectiles ?s6 = projectiles st \<or> projectiles ?s6 = [])
      \<and> (visuals ?s6 = visuals st \<or> visuals ?s6 = [])" by blast
  with dl t show ?thesis by blast
qed

lemma foldl_addToCollisionSets_fields:
  "ships (foldl addToCollisionSets st xs) = ships st
   \<and> projectiles (foldl addToCollisionSets st xs) = projectiles st
   \<and> flotsam (foldl addToCollisionSets st xs) = flotsam st
   \<and> visuals (foldl addToCollisionSets st xs) = visuals st
   \<and> drawList (foldl addToCollisionSets st xs) = drawList st
   \<and> playerSystem (foldl addToCollisionSets st xs) = playerSystem st
   \<and> playerFlagship (foldl addToCollisionSets st xs) = playerFlagship st
   \<and> trace (foldl addToCollisionSets st xs) = trace st"
  by (induction xs arbitrary: st) (simp_all add: addToCollisionSets_def)

lemma FillCollisionSets_fields:
  "ships (FillCollisionSets st) = ships st"
  "projectiles (FillCollisionSets st) = projectiles st"
  "flotsam (FillCollisionSets st) = flotsam st"
  "visuals (FillCollisionSets st) = visuals st"
  "drawList (FillCollisionSets st) = drawList st"
  "playerSystem (FillCollisionSets st) = playerSystem st"
  "playerFlagship (FillCollisionSets st) = playerFlagship st"
  "trace (FillCollisionSets st) = trace st"
  using foldl_addToCollisionSets_fields
    [of "st\<lparr>shipCollisions := [], cloakedCollisions := []\<rparr>" "ships st"]
  by (simp_all add: FillCollisionSets_def)

lemma DoScanning_spec:
  "keeps st (DoScanning ext st i) \<and> trace (DoScanning ext st i) = trace st"
  by (simp add: DoScanning_def Let_def keeps_def lock_def split: option.split)

lemma foldl_DoScanning:
  "keeps st (foldl (DoScanning ext) st xs) \<and> trace (foldl (DoScanning ext) st xs) = trace st"
proof (induction xs arbitrary: st)
  case Nil
  show ?case by (simp add: keeps_refl)
next
  case (Cons x xs)
  from Cons.IH [of "DoScanning ext st x"] DoScanning_spec [of st ext x] show ?case
    by (auto intro: keeps_trans)
qed

lemma collisionPass_spec:
  assumes "collisionPass ext st0 = Inr st'"
  shows "ships st' = ships st0 \<and> drawList st' = drawList st0
     \<and> playerSystem st' = playerSystem st0 \<and> playerFlagship st' = playerFlagship st0
     \<and> shipCollisions st' = shipCollisions (FillCollisionSets st0)
     \<and> cloakedCollisions st' = cloakedCollisions (FillCollisionSets st0)
     \<and> length (projectiles st') = length (projectiles st0)
     \<and> length (flotsam st') = length (flotsam st0)
     \<and> (\<exists>added. visuals st' = visuals st0 @ added)
     \<and> filter isHandling (trace st')
         = filter isHandling (trace st0) @ map DoCollisionsCall (projectiles st0)
           @ map DoCollectionCall (flotsam st0)"
proof -
  let ?st1 = "FillCollisionSets st0"
  from assms obtain c ps' where
    r: "collideAll ext (projectiles st0) ?st1 = Inr (c, ps')"
    by (auto simp: collisionPass_def Let_def FillCollisionSets_fields split: sum.splits)
  let ?st2 = "c\<lparr>projectiles := ps', hasAntiMissile := []\<rparr>"
  let ?col = "collectAll ext (flotsam ?st2) ?st2"
  let ?st3 = "(fst ?col)\<lparr>flotsam := snd ?col\<rparr>"
  have st': "st' = foldl (DoScanning ext) ?st3 (ships ?st3)"
    using assms r by (simp add: collisionPass_def Let_def FillCollisionSets_fields)
  from collideAll_spec [OF r] obtain calls where
    k1: "keeps ?st1 c" and l1: "length ps' = length (projectiles st0)"
    and t1: "trace c = trace ?st1 @ calls"
    and f1: "filter isDoCollisions calls = map DoCollisionsCall (projectiles st0)"
      "filter isMove calls = []" "filter isDoCollection calls = []"
    by blast
  have h1: "filter isHandling calls = map DoCollisionsCall (projectiles st0)"
    using filter_isHandling_collisions [OF f1(2) f1(3)] f1(1) by simp
  have fl2: "flotsam ?st2 = flotsam st0"
    using k1 by (simp add: keeps_def FillCollisionSets_fields)
  from collectAll_spec [of ?st2 ext "flotsam ?st2"] obtain picks where
    k2: "keeps ?st2 (fst ?col)" and l2: "length (snd ?col) = length (flotsam ?st2)"
    and t2: "trace (fst ?col) = trace ?st2 @ picks"
    and f2: "filter isDoCollection picks = map DoCollectionCall (flotsam ?st2)"
      "filter isMove picks = []" "filter isDoCollisions picks = []"
    by blast
  have h2: "filter isHandling picks = map DoCollectionCall (flotsam st0)"
    using filter_isHandling_collection [OF f2(2) f2(3)] f2(1) fl2 by simp
  from foldl_DoScanning [of ?st3 ext "ships ?st3"] have
    k3: "keeps ?st3 st'" and t3: "trace st' = trace ?st3"
    by (simp_all add: st')
  have t: "trace st' = trace st0 @ calls @ picks"
    using t3 t2 t1 by (simp add: FillCollisionSets_fields)
  have q1: "ships st' = ships st0 \<and> drawList st' = drawList st0
     \<and> playerSystem st' = playerSystem st0 \<and> playerFlagship st' = playerFlagship st0
     \<and> shipCollisions st' = shipCollisions ?st1
     \<and> cloakedCollisions st' = cloakedCollisions ?st1"
    using k1 k2 k3 by (simp add: keeps_def FillCollisionSets_fields)
  have q2: "length (projectiles st') = length (projectiles st0)"
    using k2 k3 l1 by (simp add: keeps_def)
  have q3: "length (flotsam st') = length (flotsam st0)"
    using k3 l2 fl2 by (simp add: keeps_def)
  from k1 obtain a1 where v1: "visuals c = visuals st0 @ a1"
    by (auto simp: keeps_def FillCollisionSets_fields)
  from k2 obtain a2 where v2: "visuals (fst ?col) = visuals c @ a2"
    by (auto simp: keeps_def)
  from k3 obtain a3 where v3: "visuals st' = visuals (fst ?col) @ a3"
    by (auto simp: keeps_def)
  have q4: "\<exists>added. visuals st' = visuals st0 @ added"
    using v1 v2 v3 by simp
  have q5: "filter isHandling (trace st')
         = filter isHandling (trace st0) @ map DoCollisionsCall (projectiles st0)
           @ map DoCollectionCall (flotsam st0)"
    by (simp add: t h1 h2)
  from q1 q2 q3 q4 q5 show ?thesis by blast
qed

end
